theory Spec2Isabelle
  imports Main "HOL-Library.AList"
begin

section \<open>JavaScript values of a parsed intake document\<close>

text \<open>
  The parser works on the value that \<^verbatim>\<open>JSON.parse\<close> returns and on what property
  access yields on it. A value is \<^verbatim>\<open>undefined\<close> (an absent property), \<^verbatim>\<open>null\<close>, a
  boolean, a number, a string, an array or a plain object.

  Numbers are the integers, written in decimal by string conversion; this is what
  the host does for every integer below \<open>10\<^sup>2\<^sup>1\<close> in magnitude. Number literals with
  a fraction or an exponent are outside this development.

  An object is the list of its own properties in the order they were created. A key
  that occurs again further down the list is shadowed by its first occurrence, so
  every list denotes one object: the one with the properties of
  \<open>AList.clearjunk\<close> of the list.
\<close>

datatype jsval =
    JUndefined
  | JNull
  | JBool bool
  | JNum int
  | JStr string
  | JArr "jsval list"
  | JObj "(string \<times> jsval) list"

text \<open>
  What the source can throw: the host's \<^verbatim>\<open>TypeError\<close> (reading a property of
  \<^verbatim>\<open>null\<close> or \<^verbatim>\<open>undefined\<close>, calling what is not a function, converting an object
  that has no usable \<^verbatim>\<open>toString\<close>), whose message text belongs to the engine; a
  \<^verbatim>\<open>ReferenceError\<close> for an identifier that is not bound; the \<^verbatim>\<open>SyntaxError\<close> of
  \<^verbatim>\<open>JSON.parse\<close>; and \<^verbatim>\<open>new Error(message)\<close> thrown by the source itself.
\<close>

datatype error =
    TypeError
  | ReferenceError string
  | SyntaxError string
  | Error string

definition bind_r :: "error + 'a \<Rightarrow> ('a \<Rightarrow> error + 'b) \<Rightarrow> error + 'b" where
  "bind_r m f = (case m of Inl e \<Rightarrow> Inl e | Inr x \<Rightarrow> f x)"

subsection \<open>Truthiness, \<^verbatim>\<open>typeof\<close>, \<^verbatim>\<open>||\<close>\<close>

fun truthy :: "jsval \<Rightarrow> bool" where
  "truthy JUndefined = False"
| "truthy JNull = False"
| "truthy (JBool b) = b"
| "truthy (JNum n) = (n \<noteq> 0)"
| "truthy (JStr s) = (s \<noteq> [])"
| "truthy (JArr xs) = True"
| "truthy (JObj kvs) = True"

fun typeof :: "jsval \<Rightarrow> string" where
  "typeof JUndefined = ''undefined''"
| "typeof JNull = ''object''"
| "typeof (JBool b) = ''boolean''"
| "typeof (JNum n) = ''number''"
| "typeof (JStr s) = ''string''"
| "typeof (JArr xs) = ''object''"
| "typeof (JObj kvs) = ''object''"

definition js_or :: "jsval \<Rightarrow> jsval \<Rightarrow> jsval" where
  "js_or a b = (if truthy a then a else b)"

fun nullish :: "jsval \<Rightarrow> bool" where
  "nullish JUndefined = True"
| "nullish JNull = True"
| "nullish v = False"

fun isArray :: "jsval \<Rightarrow> bool" where
  "isArray (JArr xs) = True"
| "isArray v = False"

subsection \<open>Property access\<close>

text \<open>
  \<^verbatim>\<open>v.p\<close> for the property names of the intake format (\<^verbatim>\<open>type\<close>, \<^verbatim>\<open>id\<close>,
  \<^verbatim>\<open>fields\<close>, ...). None of them is a built-in property of a string, a number, a
  boolean, an array or \<^verbatim>\<open>Object.prototype\<close>, so on anything but an object that has
  it the access yields \<^verbatim>\<open>undefined\<close>; on \<^verbatim>\<open>null\<close> and \<^verbatim>\<open>undefined\<close> it throws.
\<close>

fun js_get :: "jsval \<Rightarrow> string \<Rightarrow> error + jsval" where
  "js_get JUndefined p = Inl TypeError"
| "js_get JNull p = Inl TypeError"
| "js_get (JObj kvs) p = Inr (case map_of kvs p of None \<Rightarrow> JUndefined | Some v \<Rightarrow> v)"
| "js_get v p = Inr JUndefined"

text \<open>
  The receiver of an array method call (\<^verbatim>\<open>x.forEach(f)\<close>, \<^verbatim>\<open>x.join(s)\<close>): only an
  array has the method. On \<^verbatim>\<open>null\<close> and \<^verbatim>\<open>undefined\<close> the property read throws,
  on every other value the property is \<^verbatim>\<open>undefined\<close> or plain data and the call
  throws.
\<close>

fun array_receiver :: "jsval \<Rightarrow> error + jsval list" where
  "array_receiver (JArr xs) = Inr xs"
| "array_receiver v = Inl TypeError"

subsection \<open>Conversion to string\<close>

definition digit_char :: "nat \<Rightarrow> char" where
  "digit_char d = ''0123456789'' ! d"

fun show_nat :: "nat \<Rightarrow> string" where
  "show_nat n = (if n < 10 then [digit_char n] else show_nat (n div 10) @ [digit_char (n mod 10)])"

declare show_nat.simps [simp del]

definition show_int :: "int \<Rightarrow> string" where
  "show_int i = (if i < 0 then CHR ''-'' # show_nat (nat (- i)) else show_nat (nat i))"

fun join_with :: "string \<Rightarrow> string list \<Rightarrow> string" where
  "join_with sep [] = []"
| "join_with sep [x] = x"
| "join_with sep (x # y # ys) = x @ sep @ join_with sep (y # ys)"

text \<open>
  \<^verbatim>\<open>ToString\<close> of the host. An array converts by joining its elements with a comma,
  \<^verbatim>\<open>null\<close> and \<^verbatim>\<open>undefined\<close> elements as the empty string. A plain object converts to
  \<^verbatim>\<open>[object Object]\<close> through the inherited \<^verbatim>\<open>toString\<close>; an own property named
  \<^verbatim>\<open>toString\<close> hides that method, its value (plain data) cannot be called, and the
  conversion throws. \<open>convertible\<close> says that the conversion does not throw,
  \<open>string_of\<close> is its result then.
\<close>

fun convertible :: "jsval \<Rightarrow> bool" where
  "convertible (JArr xs) = list_all convertible xs"
| "convertible (JObj kvs) = (map_of kvs ''toString'' = None)"
| "convertible v = True"

fun string_of :: "jsval \<Rightarrow> string" where
  "string_of JUndefined = ''undefined''"
| "string_of JNull = ''null''"
| "string_of (JBool b) = (if b then ''true'' else ''false'')"
| "string_of (JNum n) = show_int n"
| "string_of (JStr s) = s"
| "string_of (JArr xs) = join_with '','' (map (\<lambda>x. if nullish x then [] else string_of x) xs)"
| "string_of (JObj kvs) = ''[object Object]''"

definition ToString :: "jsval \<Rightarrow> error + string" where
  "ToString v = (if convertible v then Inr (string_of v) else Inl TypeError)"

definition element_string :: "jsval \<Rightarrow> string" where
  "element_string x = (if nullish x then [] else string_of x)"

text \<open>\<^verbatim>\<open>Array.prototype.join\<close> on the elements of an array.\<close>

definition join :: "jsval list \<Rightarrow> string \<Rightarrow> error + string" where
  "join xs sep =
     (if list_all convertible xs then Inr (join_with sep (map element_string xs))
      else Inl TypeError)"

subsection \<open>\<^verbatim>\<open>Object.entries\<close>\<close>

text \<open>
  The own enumerable string-keyed properties in the host's order: the keys that are
  array indices (canonical decimal numerals below \<open>2\<^sup>3\<^sup>2 - 1\<close>) first, in ascending
  numeric order, then the others in creation order. An array has its elements under
  the indices, a string its characters; numbers and booleans have none.
\<close>

definition is_digit :: "char \<Rightarrow> bool" where
  "is_digit c = (c \<in> set ''0123456789'')"

definition digit_value :: "char \<Rightarrow> int" where
  "digit_value c = of_char c - 48"

definition numeral_value :: "string \<Rightarrow> int" where
  "numeral_value s = foldl (\<lambda>n c. 10 * n + digit_value c) 0 s"

definition is_array_index :: "string \<Rightarrow> bool" where
  "is_array_index k =
     (k \<noteq> [] \<and> list_all is_digit k \<and> (k = ''0'' \<or> hd k \<noteq> CHR ''0'') \<and>
      numeral_value k < 2 ^ 32 - 1)"

definition own_properties :: "(string \<times> jsval) list \<Rightarrow> (string \<times> jsval) list" where
  "own_properties kvs =
     (let ps = AList.clearjunk kvs in
      sort_key (\<lambda>p. numeral_value (fst p)) (filter (\<lambda>p. is_array_index (fst p)) ps) @
      filter (\<lambda>p. \<not> is_array_index (fst p)) ps)"

fun Object_entries :: "jsval \<Rightarrow> error + (string \<times> jsval) list" where
  "Object_entries JUndefined = Inl TypeError"
| "Object_entries JNull = Inl TypeError"
| "Object_entries (JObj kvs) = Inr (own_properties kvs)"
| "Object_entries (JArr xs) = Inr (zip (map show_nat [0..<length xs]) xs)"
| "Object_entries (JStr s) = Inr (zip (map show_nat [0..<length s]) (map (\<lambda>c. JStr [c]) s))"
| "Object_entries v = Inr []"

section \<open>Field formatters (jsonParser.js)\<close>

definition formatValidation :: "jsval \<Rightarrow> error + string" where
  "formatValidation validation =
     (if \<not> truthy validation then Inr ''''
      else if typeof validation = ''string'' then Inr (string_of validation)
      else if typeof validation = ''number'' then
        bind_r (ToString validation) (\<lambda>s. Inr (''max_length: '' @ s))
      else if typeof validation = ''object'' then
        bind_r (Object_entries validation) (\<lambda>entries.
        if list_all (\<lambda>(key, value). convertible value) entries
        then Inr (join_with '', '' (map (\<lambda>(key, value). key @ '': '' @ string_of value) entries))
        else Inl TypeError)
      else Inr '''')"

definition formatMapsTo :: "jsval \<Rightarrow> error + string" where
  "formatMapsTo mapsTo =
     (if \<not> truthy mapsTo then Inr ''''
      else if isArray mapsTo then bind_r (array_receiver mapsTo) (\<lambda>xs. join xs '', '')
      else ToString mapsTo)"

definition formatExamples :: "jsval \<Rightarrow> error + string" where
  "formatExamples examples =
     (if \<not> truthy examples then Inr ''''
      else if isArray examples then bind_r (array_receiver examples) (\<lambda>xs. join xs '' | '')
      else ToString examples)"

text \<open>\<^verbatim>\<open>xs[0]\<close>: the first element, \<^verbatim>\<open>undefined\<close> on the empty array.\<close>

definition first_element :: "jsval list \<Rightarrow> jsval" where
  "first_element xs = (case xs of [] \<Rightarrow> JUndefined | x # _ \<Rightarrow> x)"

text \<open>\<^verbatim>\<open>xs.map(f)\<close> with a callback that may throw: the first throw ends the call.\<close>

fun map_r :: "('a \<Rightarrow> error + 'b) \<Rightarrow> 'a list \<Rightarrow> error + 'b list" where
  "map_r f [] = Inr []"
| "map_r f (x # xs) = bind_r (f x) (\<lambda>y. bind_r (map_r f xs) (\<lambda>ys. Inr (y # ys)))"

definition option_text :: "jsval \<Rightarrow> error + jsval" where
  "option_text opt =
     bind_r (js_get opt ''value'') (\<lambda>value.
     if truthy value then Inr value else js_get opt ''label'')"

definition formatOptions :: "jsval \<Rightarrow> error + string" where
  "formatOptions options =
     (if \<not> truthy options then Inr ''''
      else if isArray options then
        bind_r (array_receiver options) (\<lambda>xs.
        if typeof (first_element xs) = ''string'' then join xs '' | ''
        else if typeof (first_element xs) = ''object'' then
          bind_r (map_r option_text xs) (\<lambda>ys. join ys '' | '')
        else Inr '''')
      else Inr '''')"

section \<open>Row projector (jsonParser.js)\<close>

text \<open>
  A row is the array of its twelve cells: section id, section name, question id,
  question, context, type, required, validation, maps_to, default, examples,
  options. \<open>cell\<close> reads \<^verbatim>\<open>row[i]\<close> (\<^verbatim>\<open>undefined\<close> out of range) and \<open>set_cell\<close>
  is the assignment \<^verbatim>\<open>row[i] = v\<close> (which extends a shorter array).
\<close>

type_synonym row = "jsval list"

definition cell :: "row \<Rightarrow> nat \<Rightarrow> jsval" where
  "cell r i = (if i < length r then r ! i else JUndefined)"

definition set_cell :: "row \<Rightarrow> nat \<Rightarrow> jsval \<Rightarrow> row" where
  "set_cell r i v =
     (if i < length r then r[i := v] else r @ replicate (i - length r) JUndefined @ [v])"

definition complexTypes :: "string list" where
  "complexTypes =
     [''service_object'', ''testimonial_object'', ''social_links_object'',
      ''text_array'', ''file_upload'']"

definition isComplexType :: "jsval \<Rightarrow> bool" where
  "isComplexType type = (type \<in> set (map JStr complexTypes))"

definition processStandardQuestion :: "jsval \<Rightarrow> jsval \<Rightarrow> error + row" where
  "processStandardQuestion question section =
     bind_r (js_get section ''section_id'') (\<lambda>section_id.
     bind_r (js_get section ''section_name'') (\<lambda>section_name.
     bind_r (js_get question ''id'') (\<lambda>question_id.
     bind_r (js_get question ''question'') (\<lambda>prompt.
     bind_r (js_get question ''context'') (\<lambda>context.
     bind_r (js_get question ''type'') (\<lambda>type.
     bind_r (js_get question ''required'') (\<lambda>required.
     bind_r (js_get question ''validation'') (\<lambda>validation.
     bind_r (formatValidation validation) (\<lambda>validation_text.
     bind_r (js_get question ''maps_to'') (\<lambda>maps_to.
     bind_r (formatMapsTo maps_to) (\<lambda>maps_to_text.
     bind_r (js_get question ''default'') (\<lambda>default.
     bind_r (js_get question ''examples'') (\<lambda>examples.
     bind_r (formatExamples examples) (\<lambda>examples_text.
     bind_r (js_get question ''options'') (\<lambda>options.
     bind_r (formatOptions options) (\<lambda>options_text.
     Inr [js_or section_id (JStr ''''),
          js_or section_name (JStr ''''),
          js_or question_id (JStr ''''),
          js_or prompt (JStr ''''),
          js_or context (JStr ''''),
          js_or type (JStr ''text''),
          (if required \<noteq> JUndefined then required else JBool True),
          JStr validation_text,
          JStr maps_to_text,
          js_or default (JStr ''''),
          JStr examples_text,
          JStr options_text]))))))))))))))))"

text \<open>
  The child row of one entry of \<^verbatim>\<open>fields\<close> of a \<^verbatim>\<open>service_object\<close> or
  \<^verbatim>\<open>testimonial_object\<close> question (the callback of the first \<^verbatim>\<open>forEach\<close> of
  \<^verbatim>\<open>processComplexType\<close>).
\<close>

definition object_field_row :: "jsval \<Rightarrow> jsval \<Rightarrow> string \<times> jsval \<Rightarrow> error + row" where
  "object_field_row question section entry =
     (case entry of (fieldName, fieldConfig) \<Rightarrow>
     bind_r (js_get section ''section_id'') (\<lambda>section_id.
     bind_r (js_get section ''section_name'') (\<lambda>section_name.
     bind_r (js_get question ''id'') (\<lambda>question_id.
     bind_r (ToString question_id) (\<lambda>id_text.
     bind_r (js_get question ''question'') (\<lambda>prompt.
     bind_r (ToString prompt) (\<lambda>prompt_text.
     bind_r (js_get question ''context'') (\<lambda>context.
     bind_r (js_get fieldConfig ''type'') (\<lambda>type.
     bind_r (js_get fieldConfig ''required'') (\<lambda>required.
     bind_r (js_get fieldConfig ''validation'') (\<lambda>validation.
     bind_r (if truthy validation then Inr validation
             else js_get fieldConfig ''max_length'') (\<lambda>rule.
     bind_r (formatValidation rule) (\<lambda>validation_text.
     bind_r (js_get question ''maps_to'') (\<lambda>maps_to.
     bind_r (formatMapsTo maps_to) (\<lambda>maps_to_text.
     bind_r (js_get fieldConfig ''default'') (\<lambda>default.
     Inr [js_or section_id (JStr ''''),
          js_or section_name (JStr ''''),
          JStr (id_text @ ''.'' @ fieldName),
          JStr (prompt_text @ '' - '' @ fieldName),
          js_or context (JStr ''''),
          js_or type (JStr ''text''),
          js_or required (JBool False),
          JStr validation_text,
          JStr (maps_to_text @ ''.'' @ fieldName),
          js_or default (JStr ''''),
          JStr '''',
          JStr '''']))))))))))))))))"

text \<open>
  The child row of one entry of \<^verbatim>\<open>fields\<close> of a \<^verbatim>\<open>social_links_object\<close> question
  (the callback of the second \<^verbatim>\<open>forEach\<close>).
\<close>

definition social_link_row :: "jsval \<Rightarrow> jsval \<Rightarrow> string \<times> jsval \<Rightarrow> error + row" where
  "social_link_row question section entry =
     (case entry of (platform, config) \<Rightarrow>
     bind_r (js_get section ''section_id'') (\<lambda>section_id.
     bind_r (js_get section ''section_name'') (\<lambda>section_name.
     bind_r (js_get question ''id'') (\<lambda>question_id.
     bind_r (ToString question_id) (\<lambda>id_text.
     bind_r (js_get question ''question'') (\<lambda>prompt.
     bind_r (ToString prompt) (\<lambda>prompt_text.
     bind_r (js_get question ''context'') (\<lambda>context.
     bind_r (js_get config ''type'') (\<lambda>type.
     bind_r (js_get config ''required'') (\<lambda>required.
     bind_r (js_get question ''maps_to'') (\<lambda>maps_to.
     bind_r (formatMapsTo maps_to) (\<lambda>maps_to_text.
     Inr [js_or section_id (JStr ''''),
          js_or section_name (JStr ''''),
          JStr (id_text @ ''.'' @ platform),
          JStr (prompt_text @ '' - '' @ platform),
          js_or context (JStr ''''),
          js_or type (JStr ''url''),
          js_or required (JBool False),
          JStr ''format: url'',
          JStr (maps_to_text @ ''.'' @ platform),
          JStr '''',
          JStr '''',
          JStr '''']))))))))))))"

text \<open>
  The four \<^verbatim>\<open>if\<close> statements of \<^verbatim>\<open>processComplexType\<close>, each taking the rows so
  far and returning them updated.
\<close>

definition expand_object_fields :: "jsval \<Rightarrow> jsval \<Rightarrow> row list \<Rightarrow> error + row list" where
  "expand_object_fields question section rows =
     bind_r (js_get question ''type'') (\<lambda>type.
     if type = JStr ''service_object'' \<or> type = JStr ''testimonial_object'' then
       bind_r (js_get question ''fields'') (\<lambda>fields.
       if truthy fields then
         bind_r (Object_entries fields) (\<lambda>entries.
         bind_r (map_r (object_field_row question section) entries) (\<lambda>children.
         Inr (rows @ children)))
       else Inr rows)
     else Inr rows)"

definition expand_social_links :: "jsval \<Rightarrow> jsval \<Rightarrow> row list \<Rightarrow> error + row list" where
  "expand_social_links question section rows =
     bind_r (js_get question ''type'') (\<lambda>type.
     if type = JStr ''social_links_object'' then
       bind_r (js_get question ''fields'') (\<lambda>fields.
       if truthy fields then
         bind_r (Object_entries fields) (\<lambda>entries.
         bind_r (map_r (social_link_row question section) entries) (\<lambda>children.
         Inr (rows @ children)))
       else Inr rows)
     else Inr rows)"

definition patch_text_array :: "jsval \<Rightarrow> row list \<Rightarrow> error + row list" where
  "patch_text_array question rows =
     bind_r (js_get question ''type'') (\<lambda>type.
     if type = JStr ''text_array'' then
       (case rows of
          [] \<Rightarrow> Inl TypeError
        | parentRow # others \<Rightarrow>
            bind_r (js_get question ''max_items'') (\<lambda>max_items.
            bind_r (ToString (js_or max_items (JNum 10))) (\<lambda>max_items_text.
            bind_r (ToString (cell parentRow 7)) (\<lambda>old.
            Inr (set_cell parentRow 7
                   (JStr (''max_items: '' @ max_items_text @ '', '' @ old)) # others)))))
     else Inr rows)"

definition patch_file_upload :: "jsval \<Rightarrow> row list \<Rightarrow> error + row list" where
  "patch_file_upload question rows =
     bind_r (js_get question ''type'') (\<lambda>type.
     if type = JStr ''file_upload'' then
       (case rows of
          [] \<Rightarrow> Inl TypeError
        | parentRow # others \<Rightarrow>
            bind_r (js_get question ''file_types'') (\<lambda>file_types.
            bind_r (if truthy file_types then
                      bind_r (array_receiver file_types) (\<lambda>xs.
                      bind_r (join xs '','') (\<lambda>joined.
                      Inr [''file_types: '' @ joined]))
                    else Inr []) (\<lambda>fileValidation.
            bind_r (js_get question ''max_size'') (\<lambda>max_size.
            bind_r (if truthy max_size then
                      bind_r (ToString max_size) (\<lambda>size_text.
                      Inr (fileValidation @ [''max_size: '' @ size_text]))
                    else Inr fileValidation) (\<lambda>fileValidation.
            Inr (set_cell parentRow 7 (JStr (join_with '', '' fileValidation)) # others))))))
     else Inr rows)"

definition processComplexType :: "jsval \<Rightarrow> jsval \<Rightarrow> error + row list" where
  "processComplexType question section =
     bind_r (processStandardQuestion question section) (\<lambda>parent.
     bind_r (expand_object_fields question section [parent]) (\<lambda>rows.
     bind_r (expand_social_links question section rows) (\<lambda>rows.
     bind_r (patch_text_array question rows) (\<lambda>rows.
     patch_file_upload question rows))))"

section \<open>Flattening engine (jsonParser.js)\<close>

text \<open>
  \<^verbatim>\<open>xs.forEach(f)\<close> where the callback updates a variable of the enclosing function
  and may throw: the variable is threaded through, the first throw ends the loop.
\<close>

fun forEach_r :: "('a \<Rightarrow> 's \<Rightarrow> error + 's) \<Rightarrow> 'a list \<Rightarrow> 's \<Rightarrow> error + 's" where
  "forEach_r f [] s = Inr s"
| "forEach_r f (x # xs) s = bind_r (f x s) (\<lambda>s'. forEach_r f xs s')"

record parsedData =
  rows :: "row list"
  sectionCount :: nat

text \<open>The rows one question contributes: the body of the inner \<^verbatim>\<open>forEach\<close>.\<close>

definition question_rows :: "jsval \<Rightarrow> jsval \<Rightarrow> error + row list" where
  "question_rows section question =
     bind_r (js_get question ''type'') (\<lambda>type.
     if isComplexType type then processComplexType question section
     else bind_r (processStandardQuestion question section) (\<lambda>row. Inr [row]))"

definition flatten_question :: "jsval \<Rightarrow> jsval \<Rightarrow> row list \<Rightarrow> error + row list" where
  "flatten_question section question acc =
     bind_r (question_rows section question) (\<lambda>new. Inr (acc @ new))"

definition flatten_section :: "jsval \<Rightarrow> row list \<Rightarrow> error + row list" where
  "flatten_section section acc =
     bind_r (js_get section ''questions'') (\<lambda>questions.
     bind_r (array_receiver questions) (\<lambda>qs.
     forEach_r (flatten_question section) qs acc))"

definition flattenIntakeJSON :: "jsval \<Rightarrow> error + parsedData" where
  "flattenIntakeJSON intakeData =
     bind_r (js_get intakeData ''conversation_flow'') (\<lambda>conversation_flow.
     bind_r (js_get conversation_flow ''sections'') (\<lambda>sections.
     bind_r (array_receiver sections) (\<lambda>ss.
     bind_r (forEach_r flatten_section ss []) (\<lambda>all_rows.
     Inr \<lparr>rows = all_rows, sectionCount = length ss\<rparr>))))"

section \<open>The spreadsheet (host state)\<close>

text \<open>
  The host's spreadsheet is the list of its sheets. Of a sheet the development keeps
  its name, the header and data rows written to it, the lock notice, the metadata row
  and whether it is protected; colours, widths, borders and checkboxes are left out.
  \<open>getSheetByName\<close> is the host's lookup of a sheet by its name.
\<close>

record sheet =
  sheet_name :: string
  header :: "string list"
  data :: "row list"
  notice :: "string list"
  metadata :: "string list"
  protected :: bool

type_synonym spreadsheet = "sheet list"

definition getSheetByName :: "spreadsheet \<Rightarrow> string \<Rightarrow> sheet option" where
  "getSheetByName ss name = find (\<lambda>s. sheet_name s = name) ss"

definition headers :: "string list" where
  "headers =
     [''section_id'', ''section_name'', ''question_id'', ''question'', ''context'', ''type'',
      ''required'', ''validation'', ''maps_to'', ''default'', ''examples'', ''options'']"

definition buildIntakeSheet :: "spreadsheet \<Rightarrow> string \<Rightarrow> parsedData \<Rightarrow> spreadsheet" where
  "buildIntakeSheet ss sheetName parsed =
     filter (\<lambda>s. sheet_name s \<noteq> sheetName) ss @
     [\<lparr>sheet_name = sheetName, header = headers, data = rows parsed,
       notice = [], metadata = [], protected = False\<rparr>]"

definition update_sheet :: "string \<Rightarrow> (sheet \<Rightarrow> sheet) \<Rightarrow> spreadsheet \<Rightarrow> spreadsheet" where
  "update_sheet name f ss = map (\<lambda>s. if sheet_name s = name then f s else s) ss"

definition lockSchema :: "spreadsheet \<Rightarrow> string \<Rightarrow> spreadsheet" where
  "lockSchema ss name =
     update_sheet name
       (\<lambda>s. s\<lparr>protected := True,
              notice := [''LOCKED SCHEMA'',
                         ''This sheet is protected and serves as an immutable reference'']\<rparr>)
       ss"

text \<open>\<open>now\<close> is the text of \<^verbatim>\<open>new Date().toLocaleString()\<close>.\<close>

definition addMetadata :: "string \<Rightarrow> spreadsheet \<Rightarrow> string \<Rightarrow> jsval \<Rightarrow> error + spreadsheet" where
  "addMetadata now ss name intakeData =
     bind_r (js_get intakeData ''template_name'') (\<lambda>template_name.
     bind_r (ToString template_name) (\<lambda>template_text.
     bind_r (js_get intakeData ''template_version'') (\<lambda>template_version.
     bind_r (ToString (js_or template_version (JStr ''1.0''))) (\<lambda>version_text.
     Inr (update_sheet name
            (\<lambda>s. s\<lparr>metadata := [''METADATA'', ''Template: '' @ template_text,
                                 ''Version: '' @ version_text, ''Imported: '' @ now]\<rparr>)
            ss)))))"

section \<open>Naming resolver (main.js)\<close>

definition versioned :: "string \<Rightarrow> nat \<Rightarrow> string" where
  "versioned baseName version = baseName @ ''_v'' @ show_nat version"

text \<open>
  The \<^verbatim>\<open>while\<close> loop of \<^verbatim>\<open>getVersionedSheetName\<close>: count up from \<open>version\<close> as long
  as a sheet of that versioned name exists.
\<close>

function next_version :: "spreadsheet \<Rightarrow> string \<Rightarrow> nat \<Rightarrow> nat" where
  "next_version ss baseName version =
     (if getSheetByName ss (versioned baseName version) \<noteq> None
      then next_version ss baseName (version + 1)
      else version)"
  by pat_completeness auto

text \<open>
  The loop ends: a sheet name is at most as long as the longest name of the
  spreadsheet, and the decimal numeral of \<open>n\<close> has more than \<open>log\<^sub>1\<^sub>0 n\<close> digits.
\<close>

lemma show_nat_bound: "n < 10 ^ length (show_nat n)"
proof (induction n rule: show_nat.induct)
  case (1 n)
  show ?case
  proof (cases "n < 10")
    case True
    then show ?thesis by (simp add: show_nat.simps [of n])
  next
    case False
    with 1 have "n div 10 < 10 ^ length (show_nat (n div 10))" by simp
    then have "n < 10 * 10 ^ length (show_nat (n div 10))" by simp
    with False show ?thesis by (simp add: show_nat.simps [of n])
  qed
qed

definition longest_name :: "spreadsheet \<Rightarrow> nat" where
  "longest_name ss = foldr (\<lambda>s m. max (length (sheet_name s)) m) ss 0"

lemma longest_name_ge: "s \<in> set ss \<Longrightarrow> length (sheet_name s) \<le> longest_name ss"
  by (induction ss) (auto simp: longest_name_def)

lemma getSheetByName_Some_iff:
  "getSheetByName ss name \<noteq> None \<longleftrightarrow> name \<in> sheet_name ` set ss"
  by (auto simp: getSheetByName_def find_None_iff)

lemma existing_version_bound:
  assumes "getSheetByName ss (versioned baseName version) \<noteq> None"
  shows "version < 10 ^ longest_name ss"
proof -
  from assms have "versioned baseName version \<in> sheet_name ` set ss"
    by (simp only: getSheetByName_Some_iff)
  then obtain s where s: "s \<in> set ss" "sheet_name s = versioned baseName version"
    by auto
  then have "length (show_nat version) \<le> longest_name ss"
    using longest_name_ge [OF s(1)] by (simp add: versioned_def)
  then have "(10::nat) ^ length (show_nat version) \<le> 10 ^ longest_name ss"
    by (simp add: power_increasing)
  with show_nat_bound [of version] show ?thesis by linarith
qed

termination next_version
proof (relation "measure (\<lambda>(ss, baseName, version). 10 ^ longest_name ss - version)")
  show "wf (measure (\<lambda>(ss, baseName, version). 10 ^ longest_name ss - version))" by simp
next
  fix ss :: spreadsheet and baseName :: string and version :: nat
  assume "getSheetByName ss (versioned baseName version) \<noteq> None"
  then have "version < 10 ^ longest_name ss" by (rule existing_version_bound)
  then show "((ss, baseName, version + 1), (ss, baseName, version))
      \<in> measure (\<lambda>(ss, baseName, version). 10 ^ longest_name ss - version)"
    by simp
qed

declare next_version.simps [simp del]

definition getVersionedSheetName :: "spreadsheet \<Rightarrow> jsval \<Rightarrow> bool \<Rightarrow> error + string" where
  "getVersionedSheetName ss templateName forceNew =
     bind_r (ToString templateName) (\<lambda>name_text.
     let baseName = ''Intake_'' @ name_text in
     if \<not> forceNew \<and> getSheetByName ss baseName = None then Inr baseName
     else Inr (versioned baseName (next_version ss baseName 2)))"

section \<open>Identity guard (main.js)\<close>

text \<open>
  A \<^verbatim>\<open>Set\<close> is the list of its members in insertion order. Membership compares by
  \<^verbatim>\<open>SameValueZero\<close>: numbers, strings, booleans, \<^verbatim>\<open>null\<close> and \<^verbatim>\<open>undefined\<close> by
  value, objects and arrays by reference. The cells of different rows never hold the
  same object (a parsed document is a tree), so an object or array cell is the same
  value as no other.
\<close>

fun primitive :: "jsval \<Rightarrow> bool" where
  "primitive (JArr xs) = False"
| "primitive (JObj kvs) = False"
| "primitive v = True"

definition same_value_zero :: "jsval \<Rightarrow> jsval \<Rightarrow> bool" where
  "same_value_zero a b = (primitive a \<and> a = b)"

definition set_has :: "jsval list \<Rightarrow> jsval \<Rightarrow> bool" where
  "set_has members x = list_ex (\<lambda>m. same_value_zero m x) members"

definition set_add :: "jsval list \<Rightarrow> jsval \<Rightarrow> jsval list" where
  "set_add members x = (if set_has members x then members else members @ [x])"

text \<open>
  The callback of \<^verbatim>\<open>ids.forEach\<close>, on the pair of the variables \<^verbatim>\<open>seen\<close> and
  \<^verbatim>\<open>duplicates\<close>.
\<close>

definition note_id :: "jsval \<Rightarrow> jsval list \<times> jsval list \<Rightarrow> jsval list \<times> jsval list" where
  "note_id ident state =
     (case state of (seen, duplicates) \<Rightarrow>
        (set_add seen ident, if set_has seen ident then duplicates @ [ident] else duplicates))"

definition checkDuplicateIds :: "row list \<Rightarrow> jsval list" where
  "checkDuplicateIds rs =
     (let ids = map (\<lambda>row. cell row 2) rs;
          duplicates = snd (fold note_id ids ([], []))
      in fold (\<lambda>d members. set_add members d) duplicates [])"

section \<open>Orchestrator (main.js)\<close>

text \<open>
  The result object of \<^verbatim>\<open>processIntakeJSON\<close>: \<^verbatim>\<open>{success: true, sheetName, rowCount,
  message}\<close> or \<^verbatim>\<open>{success: false, error}\<close>, the latter with the caught error in
  place of its message text.
\<close>

datatype outcome =
    Success string jsval string
  | Failure error

text \<open>
  The names an identifier can resolve to from inside \<^verbatim>\<open>processIntakeJSON\<close>: its
  parameters and \<^verbatim>\<open>const\<close> declarations, then the globals, which are the top-level
  functions of the project's files and the services of the host. Reading a name
  that is neither throws a \<^verbatim>\<open>ReferenceError\<close>.
\<close>

definition global_names :: "string list" where
  "global_names =
     [''onOpen'', ''showSidebar'', ''processIntakeJSON'', ''getVersionedSheetName'',
      ''checkDuplicateIds'', ''addMetadata'', ''previewJSON'', ''listSchemas'', ''showAbout'',
      ''flattenIntakeJSON'', ''isComplexType'', ''processStandardQuestion'',
      ''processComplexType'', ''formatValidation'', ''formatMapsTo'', ''formatExamples'',
      ''formatOptions'', ''buildIntakeSheet'', ''formatSheet'', ''setColumnWidths'',
      ''lockSchema'', ''addProtectionIndicator'', ''protectCriticalColumns'', ''isSheetLocked'',
      ''unlockSchema'', ''createBackupBeforeLock'',
      ''SpreadsheetApp'', ''HtmlService'', ''JSON'', ''Object'', ''Array'', ''String'', ''Set'',
      ''Error'', ''Math'', ''Date'']"

text \<open>A global is a function or a host service; its value is opaque here.\<close>

definition read_identifier :: "(string \<times> jsval) list \<Rightarrow> string \<Rightarrow> error + jsval" where
  "read_identifier locals name =
     (case map_of locals name of
        Some v \<Rightarrow> Inr v
      | None \<Rightarrow> if name \<in> set global_names then Inr (JObj []) else Inl (ReferenceError name))"

text \<open>\<^verbatim>\<open>v.length\<close>.\<close>

fun js_length :: "jsval \<Rightarrow> error + jsval" where
  "js_length JUndefined = Inl TypeError"
| "js_length JNull = Inl TypeError"
| "js_length (JArr xs) = Inr (JNum (int (length xs)))"
| "js_length (JStr s) = Inr (JNum (int (length s)))"
| "js_length v = Inr JUndefined"

text \<open>
  The two structural checks at the head of the \<^verbatim>\<open>try\<close> block.
\<close>

definition check_structure :: "jsval \<Rightarrow> error + unit" where
  "check_structure intakeData =
     bind_r (js_get intakeData ''template_name'') (\<lambda>template_name.
     if \<not> truthy template_name then Inl (Error ''Missing template_name in JSON'')
     else
     bind_r (js_get intakeData ''conversation_flow'') (\<lambda>conversation_flow.
     bind_r (if \<not> truthy conversation_flow then Inr True
             else bind_r (js_get conversation_flow ''sections'') (\<lambda>sections.
                  Inr (\<not> truthy sections))) (\<lambda>missing.
     if missing then Inl (Error ''Invalid JSON structure - missing conversation_flow.sections'')
     else Inr ())))"

text \<open>
  The statements of the \<^verbatim>\<open>try\<close> block up to the call of \<^verbatim>\<open>buildIntakeSheet\<close>; they
  read the spreadsheet and do not change it. \<open>parse\<close> is the host's \<^verbatim>\<open>JSON.parse\<close>.
\<close>

definition prepare ::
  "(string \<Rightarrow> error + jsval) \<Rightarrow> spreadsheet \<Rightarrow> string \<Rightarrow> bool \<Rightarrow> error + jsval \<times> string \<times> parsedData \<times> jsval list"
where
  "prepare parse ss jsonContent forceNewVersion =
     bind_r (parse jsonContent) (\<lambda>intakeData.
     bind_r (check_structure intakeData) (\<lambda>_.
     bind_r (js_get intakeData ''template_name'') (\<lambda>template_name.
     bind_r (getVersionedSheetName ss template_name forceNewVersion) (\<lambda>sheetName.
     bind_r (flattenIntakeJSON intakeData) (\<lambda>parsed.
     let duplicates = checkDuplicateIds (rows parsed) in
     if length duplicates > 0 then
       bind_r (join duplicates '', '') (\<lambda>listed.
       Inl (Error (''Duplicate question IDs found: '' @ listed)))
     else Inr (intakeData, sheetName, parsed, duplicates))))))"

definition processIntakeJSON ::
  "(string \<Rightarrow> error + jsval) \<Rightarrow> string \<Rightarrow> spreadsheet \<Rightarrow> string \<Rightarrow> bool \<Rightarrow> outcome \<times> spreadsheet"
where
  "processIntakeJSON parse now ss jsonContent forceNewVersion =
     (case prepare parse ss jsonContent forceNewVersion of
        Inl e \<Rightarrow> (Failure e, ss)
      | Inr (intakeData, sheetName, parsed, duplicates) \<Rightarrow>
          let built = buildIntakeSheet ss sheetName parsed;
              locked = lockSchema built sheetName
          in (case addMetadata now locked sheetName intakeData of
                Inl e \<Rightarrow> (Failure e, locked)
              | Inr stamped \<Rightarrow>
                  let locals =
                        [(''jsonContent'', JStr jsonContent),
                         (''forceNewVersion'', JBool forceNewVersion),
                         (''intakeData'', intakeData),
                         (''sheetName'', JStr sheetName),
                         (''parsedData'',
                            JObj [(''rows'', JArr (map JArr (rows parsed))),
                                  (''sectionCount'', JNum (int (sectionCount parsed)))]),
                         (''duplicates'', JArr duplicates),
                         (''sheet'', JObj [])]
                  in (case bind_r (read_identifier locals ''rows'') (\<lambda>rows_value.
                           bind_r (js_length rows_value) (\<lambda>rowCount.
                           bind_r (ToString rowCount) (\<lambda>count_text.
                           Inr (Success sheetName rowCount
                                  (''Successfully created '' @ sheetName @ '' with '' @
                                   count_text @ '' questions''))))) of
                        Inl e \<Rightarrow> (Failure e, stamped)
                      | Inr result \<Rightarrow> (result, stamped))))"

section \<open>Notions used in the statements\<close>

text \<open>
  \<open>property v p\<close> is the value of \<^verbatim>\<open>v.p\<close> wherever that read does not throw.
\<close>

definition property :: "jsval \<Rightarrow> string \<Rightarrow> jsval" where
  "property v p =
     (case v of
        JObj kvs \<Rightarrow> (case map_of kvs p of None \<Rightarrow> JUndefined | Some w \<Rightarrow> w)
      | _ \<Rightarrow> JUndefined)"

text \<open>
  A value is plain when no object inside it has an own property named
  \<^verbatim>\<open>toString\<close>: every part of it converts to a string.
\<close>

fun plain :: "jsval \<Rightarrow> bool" where
  "plain (JArr xs) = list_all plain xs"
| "plain (JObj kvs) = (map_of kvs ''toString'' = None \<and> list_all plain (map snd kvs))"
| "plain v = True"

text \<open>
  The one shape of \<^verbatim>\<open>options\<close> on which \<^verbatim>\<open>formatOptions\<close> reads a property of
  \<^verbatim>\<open>null\<close>: an array whose first element has \<^verbatim>\<open>typeof\<close> \<^verbatim>\<open>object\<close> (an object, an
  array or \<^verbatim>\<open>null\<close>) and that holds \<^verbatim>\<open>null\<close> or \<^verbatim>\<open>undefined\<close>.
\<close>

definition options_ok :: "jsval \<Rightarrow> bool" where
  "options_ok v =
     (case v of
        JArr xs \<Rightarrow> typeof (first_element xs) = ''object'' \<longrightarrow> list_all (\<lambda>x. \<not> nullish x) xs
      | _ \<Rightarrow> True)"

text \<open>
  The elements of an array (none for any other value), whether a computation
  returns rather than throws, and the entries \<^verbatim>\<open>Object.entries\<close> gives (none where it
  throws).
\<close>

definition elements :: "jsval \<Rightarrow> jsval list" where
  "elements v = (case v of JArr xs \<Rightarrow> xs | _ \<Rightarrow> [])"

definition completes :: "error + 'a \<Rightarrow> bool" where
  "completes r = (case r of Inl e \<Rightarrow> False | Inr x \<Rightarrow> True)"

definition entries_of :: "jsval \<Rightarrow> (string \<times> jsval) list" where
  "entries_of v = (case Object_entries v of Inl e \<Rightarrow> [] | Inr entries \<Rightarrow> entries)"

text \<open>
  A question whose projection cannot throw: it is not \<^verbatim>\<open>null\<close>, it is plain, its
  \<^verbatim>\<open>options\<close> are not the one bad shape, the configurations of its \<^verbatim>\<open>fields\<close> are
  not \<^verbatim>\<open>null\<close> when its type expands them, and its \<^verbatim>\<open>file_types\<close>, when set on a
  \<^verbatim>\<open>file_upload\<close>, is an array. A section is well shaped when its \<^verbatim>\<open>questions\<close> is
  an array of such questions, a document when its \<^verbatim>\<open>conversation_flow.sections\<close> is
  an array of such sections.
\<close>

definition question_ok :: "jsval \<Rightarrow> bool" where
  "question_ok q =
     (\<not> nullish q \<and> plain q \<and> options_ok (property q ''options'') \<and>
      (property q ''type'' \<in> set (map JStr [''service_object'', ''testimonial_object'',
                                             ''social_links_object'']) \<and>
       truthy (property q ''fields'') \<longrightarrow>
         list_all (\<lambda>(name, config). \<not> nullish config) (entries_of (property q ''fields''))) \<and>
      (property q ''type'' = JStr ''file_upload'' \<and> truthy (property q ''file_types'') \<longrightarrow>
         isArray (property q ''file_types'')))"

definition section_ok :: "jsval \<Rightarrow> bool" where
  "section_ok s = (isArray (property s ''questions'') \<and>
                   list_all question_ok (elements (property s ''questions'')))"

definition document_ok :: "jsval \<Rightarrow> bool" where
  "document_ok d =
     (isArray (property (property d ''conversation_flow'') ''sections'') \<and>
      list_all section_ok (elements (property (property d ''conversation_flow'') ''sections'')))"

text \<open>
  Two readings of the specification that differ from the source. A part of the
  validation of a file upload is included when its attribute is present, that is,
  has a value; the source tests the attribute's truthiness. The validation rule of
  a field is \<^verbatim>\<open>validation ?? maxLength\<close>, which falls back only from \<^verbatim>\<open>null\<close> and
  \<^verbatim>\<open>undefined\<close>; the source writes \<^verbatim>\<open>||\<close>.
\<close>

definition present :: "jsval \<Rightarrow> bool" where
  "present v = (\<not> nullish v)"

definition claimed_file_validation :: "jsval \<Rightarrow> string" where
  "claimed_file_validation q =
     join_with '', ''
       ((if present (property q ''file_types'')
         then [''file_types: '' @ join_with '','' (map element_string (elements (property q ''file_types'')))]
         else []) @
        (if present (property q ''max_size'')
         then [''max_size: '' @ string_of (property q ''max_size'')]
         else []))"

definition nullish_coalesce :: "jsval \<Rightarrow> jsval \<Rightarrow> jsval" where
  "nullish_coalesce a b = (if nullish a then b else a)"

definition claimed_field_validation :: "jsval \<Rightarrow> error + string" where
  "claimed_field_validation fieldConfig =
     formatValidation
       (nullish_coalesce (property fieldConfig ''validation'') (property fieldConfig ''max_length''))"

section \<open>Example data\<close>

text \<open>A sheet of a given name, with nothing written to it.\<close>

definition named :: "string \<Rightarrow> sheet" where
  "named name =
     \<lparr>sheet_name = name, header = [], data = [], notice = [], metadata = [], protected = False\<rparr>"

text \<open>A standard row with a given question identifier.\<close>

definition row_with_id :: "string \<Rightarrow> row" where
  "row_with_id ident =
     [JStr ''s1'', JStr ''Basics'', JStr ident, JStr ''Question?'', JStr [], JStr ''text'',
      JBool True, JStr [], JStr [], JStr [], JStr [], JStr []]"

text \<open>
  A section and questions of the complex types, the document of the end-to-end
  scenario, a document whose section has no \<^verbatim>\<open>questions\<close>, and the text of the
  scenario with a \<^verbatim>\<open>JSON.parse\<close> that knows this one text.
\<close>

definition basics_section :: jsval where
  "basics_section = JObj [(''section_id'', JStr ''s1''), (''section_name'', JStr ''Basics'')]"

definition tags_question :: jsval where
  "tags_question =
     JObj [(''id'', JStr ''tags''), (''question'', JStr ''Tags?''), (''type'', JStr ''text_array''),
           (''validation'', JStr ''short words''), (''max_items'', JNum 3)]"

definition upload_question :: jsval where
  "upload_question =
     JObj [(''id'', JStr ''logo''), (''question'', JStr ''Logo?''), (''type'', JStr ''file_upload''),
           (''validation'', JStr ''required field''),
           (''file_types'', JArr [JStr ''pdf'', JStr ''png'']), (''max_size'', JNum 5)]"

definition bare_upload_question :: jsval where
  "bare_upload_question =
     JObj [(''id'', JStr ''logo''), (''question'', JStr ''Logo?''), (''type'', JStr ''file_upload''),
           (''validation'', JStr ''required field'')]"

definition zero_size_upload_question :: jsval where
  "zero_size_upload_question =
     JObj [(''id'', JStr ''logo''), (''question'', JStr ''Logo?''), (''type'', JStr ''file_upload''),
           (''max_size'', JNum 0)]"

definition service_question :: jsval where
  "service_question =
     JObj [(''id'', JStr ''svc''), (''question'', JStr ''Service''), (''type'', JStr ''service_object''),
           (''maps_to'', JStr ''services''),
           (''fields'',
              JObj [(''name'', JObj [(''validation'', JStr []), (''max_length'', JNum 50)]),
                    (''price'', JObj [(''type'', JStr ''number''), (''required'', JBool True)])])]"

definition links_question :: jsval where
  "links_question =
     JObj [(''id'', JStr ''q2''), (''question'', JStr ''Links''),
           (''type'', JStr ''social_links_object''),
           (''fields'', JObj [(''twitter'', JObj [(''type'', JStr ''url'')])])]"

definition contact_document :: jsval where
  "contact_document =
     JObj [(''template_name'', JStr ''Contact''),
           (''conversation_flow'',
              JObj [(''sections'',
                 JArr [JObj [(''section_id'', JStr ''s1''), (''section_name'', JStr ''Basics''),
                             (''questions'',
                                JArr [JObj [(''id'', JStr ''q1''), (''question'', JStr ''Name?''),
                                            (''type'', JStr ''text'')],
                                      links_question])]])])]"

definition no_questions_document :: jsval where
  "no_questions_document =
     JObj [(''template_name'', JStr ''Contact''),
           (''conversation_flow'',
              JObj [(''sections'',
                 JArr [JObj [(''section_id'', JStr ''s1''), (''section_name'', JStr ''Basics'')]])])]"

definition contact_json :: string where
  \<open>contact_json =
     ''{"template_name":"Contact","conversation_flow":{"sections":[{"section_id":"s1","section_name":"Basics","questions":[{"id":"q1","question":"Name?","type":"text"},{"id":"q2","question":"Links","type":"social_links_object","fields":{"twitter":{"type":"url"}}}]}]}}''\<close>

definition parse_contact :: "string \<Rightarrow> error + jsval" where
  "parse_contact text =
     (if text = contact_json then Inr contact_document else Inl (SyntaxError ''Unexpected token''))"

definition numbered_fields_question :: jsval where
  "numbered_fields_question =
     JObj [(''id'', JStr ''svc''), (''question'', JStr ''Service''), (''type'', JStr ''service_object''),
           (''fields'', JObj [(''b'', JObj []), (''1'', JObj [])])]"

section \<open>Basic facts\<close>

lemma bind_r_Inr [simp]: "bind_r (Inr x) f = f x"
  by (simp add: bind_r_def)

lemma bind_r_Inl [simp]: "bind_r (Inl e) f = Inl e"
  by (simp add: bind_r_def)

lemma bind_r_eq_Inr: "bind_r m f = Inr y \<longleftrightarrow> (\<exists>x. m = Inr x \<and> f x = Inr y)"
  by (cases m) simp_all

lemma show_nat_digit: "n < 10 \<Longrightarrow> show_nat n = [digit_char n]"
  by (simp add: show_nat.simps [of n])

lemma show_nat_50: "show_nat 50 = ''50''"
  by (simp add: show_nat.simps [of 50] show_nat.simps [of 5] digit_char_def)

lemma js_get_eq: "js_get v p = (if nullish v then Inl TypeError else Inr (property v p))"
  by (cases v) (simp_all add: property_def)

lemma plain_convertible: "plain v \<Longrightarrow> convertible v"
  by (induction v) (auto simp: list_all_iff)

lemma plain_property: "plain v \<Longrightarrow> plain (property v p)"
  by (cases v) (auto simp: property_def list_all_iff split: option.splits dest!: map_of_SomeD)

lemma set_clearjunk_subset: "set (AList.clearjunk kvs) \<subseteq> set kvs"
  by (induction kvs rule: AList.clearjunk.induct) (auto simp: AList.delete_eq)

lemma set_own_properties_subset: "set (own_properties kvs) \<subseteq> set kvs"
  using set_clearjunk_subset [of kvs] by (auto simp: own_properties_def Let_def)

lemma plain_entries:
  assumes "plain v" "Object_entries v = Inr entries"
  shows "list_all (\<lambda>(key, value). plain value) entries"
proof (cases v)
  case (JObj kvs)
  with assms set_own_properties_subset [of kvs] show ?thesis
    by (fastforce simp: list_all_iff)
next
  case (JArr xs)
  with assms show ?thesis by (auto simp: list_all_iff dest: set_zip_rightD)
next
  case (JStr s)
  with assms show ?thesis by (auto simp: list_all_iff dest!: set_zip_rightD)
qed (use assms in auto)

lemma Object_entries_defined: "\<not> nullish v \<Longrightarrow> \<exists>entries. Object_entries v = Inr entries"
  by (cases v) simp_all

section \<open>The validation formatter\<close>

lemma formatValidation_nullish: "nullish v \<Longrightarrow> formatValidation v = Inr []"
  by (cases v) (simp_all add: formatValidation_def)

lemma formatValidation_string: "formatValidation (JStr s) = Inr s"
  by (simp add: formatValidation_def)

lemma formatValidation_number:
  "formatValidation (JNum n) = (if n = 0 then Inr [] else Inr (''max_length: '' @ show_int n))"
  by (simp add: formatValidation_def ToString_def)

lemma formatValidation_object:
  "formatValidation (JObj kvs) =
     (if list_all (\<lambda>(key, value). convertible value) (own_properties kvs)
      then Inr (join_with '', ''
                  (map (\<lambda>(key, value). key @ '': '' @ string_of value) (own_properties kvs)))
      else Inl TypeError)"
  by (simp add: formatValidation_def)



lemma own_properties_example:
  "own_properties [(''min'', JNum 2), (''pattern'', JStr ''a-z'')] =
     [(''min'', JNum 2), (''pattern'', JStr ''a-z'')]"
  by code_simp


section \<open>Totality of the formatters\<close>

lemma formatMapsTo_nullish: "nullish v \<Longrightarrow> formatMapsTo v = Inr []"
  by (cases v) (simp_all add: formatMapsTo_def)

lemma formatExamples_nullish: "nullish v \<Longrightarrow> formatExamples v = Inr []"
  by (cases v) (simp_all add: formatExamples_def)

lemma formatOptions_nullish: "nullish v \<Longrightarrow> formatOptions v = Inr []"
  by (cases v) (simp_all add: formatOptions_def)

lemma formatValidation_plain:
  assumes "plain v"
  shows "\<exists>s. formatValidation v = Inr s"
proof -
  have entries: "list_all (\<lambda>(key, value). convertible value) es"
    if "Object_entries v = Inr es" for es
    using plain_entries [OF assms that] by (auto simp: list_all_iff dest: plain_convertible)
  show ?thesis
  proof (cases v)
    case (JObj kvs)
    with entries [of "own_properties kvs"] show ?thesis by (simp add: formatValidation_def)
  next
    case (JArr xs)
    with entries [of "zip (map show_nat [0..<length xs]) xs"] show ?thesis
      by (simp add: formatValidation_def)
  qed (simp_all add: formatValidation_def ToString_def)
qed

lemma formatMapsTo_convertible: "(\<exists>s. formatMapsTo v = Inr s) \<longleftrightarrow> convertible v"
  by (cases v) (simp_all add: formatMapsTo_def ToString_def join_def)

lemma formatExamples_convertible: "(\<exists>s. formatExamples v = Inr s) \<longleftrightarrow> convertible v"
  by (cases v) (simp_all add: formatExamples_def ToString_def join_def)

lemma option_text_eq:
  "option_text opt =
     (if nullish opt then Inl TypeError
      else Inr (js_or (property opt ''value'') (property opt ''label'')))"
  by (simp add: option_text_def js_get_eq js_or_def)

lemma map_r_total:
  "list_all (\<lambda>x. f x = Inr (g x)) xs \<Longrightarrow> map_r f xs = Inr (map g xs)"
  by (induction xs) simp_all

lemma map_r_fails:
  "x \<in> set xs \<Longrightarrow> f x = Inl TypeError \<Longrightarrow> \<forall>y e. f y = Inl e \<longrightarrow> e = TypeError \<Longrightarrow>
   map_r f xs = Inl TypeError"
proof (induction xs)
  case Nil
  then show ?case by simp
next
  case (Cons a xs)
  show ?case
  proof (cases "f a")
    case (Inl e)
    with Cons.prems show ?thesis by simp
  next
    case (Inr b)
    with Cons.prems have "x \<in> set xs" by auto
    from Cons.IH [OF this Cons.prems(2,3)] Inr show ?thesis by simp
  qed
qed

lemma formatOptions_plain:
  assumes "plain v" "options_ok v"
  shows "\<exists>s. formatOptions v = Inr s"
proof (cases v)
  case (JArr xs)
  from assms JArr have conv: "list_all convertible xs"
    by (auto simp: list_all_iff dest: plain_convertible)
  show ?thesis
  proof (cases "typeof (first_element xs) = ''object''")
    case True
    with assms JArr have nonnull: "list_all (\<lambda>x. \<not> nullish x) xs"
      by (simp add: options_ok_def)
    then have texts: "map_r option_text xs =
        Inr (map (\<lambda>x. js_or (property x ''value'') (property x ''label'')) xs)"
      by (intro map_r_total) (simp add: option_text_eq list_all_iff)
    from assms JArr
    have "list_all convertible (map (\<lambda>x. js_or (property x ''value'') (property x ''label'')) xs)"
      by (auto simp: list_all_iff js_or_def intro!: plain_convertible plain_property)
    with True texts JArr show ?thesis by (simp add: formatOptions_def join_def)
  next
    case False
    with conv JArr show ?thesis by (simp add: formatOptions_def join_def)
  qed
qed (simp_all add: formatOptions_def)

lemma formatOptions_throws:
  assumes "\<not> options_ok v"
  shows "formatOptions v = Inl TypeError"
proof -
  from assms obtain xs x where v: "v = JArr xs"
    and first: "typeof (first_element xs) = ''object''"
    and x: "x \<in> set xs" "nullish x"
    by (auto simp: options_ok_def list_all_iff split: jsval.splits)
  have "map_r option_text xs = Inl TypeError"
    using x by (intro map_r_fails [of x]) (auto simp: option_text_eq split: if_splits)
  with v first show ?thesis by (simp add: formatOptions_def)
qed

text \<open>
  C3, as stated, fails for \<^verbatim>\<open>formatOptions\<close> on an array that contains \<^verbatim>\<open>null\<close>:
  \<^verbatim>\<open>typeof null\<close> is \<^verbatim>\<open>object\<close>, so \<^verbatim>\<open>formatOptions([null])\<close> takes the branch for
  arrays of objects and reads \<^verbatim>\<open>null.value\<close>, which throws.
\<close>

theorem formatOptions_null_counterexample:
  "formatOptions (JArr [JNull]) = Inl TypeError"
  by (simp add: formatOptions_def first_element_def option_text_def)

text \<open>
  C3 (amended): each formatter is a function of its input alone and yields the empty
  string on \<^verbatim>\<open>null\<close> and absent input. \<^verbatim>\<open>formatValidation\<close>, \<^verbatim>\<open>formatMapsTo\<close> and
  \<^verbatim>\<open>formatExamples\<close> return a string on every plain input, arrays with \<^verbatim>\<open>null\<close> or
  mixed elements included. \<^verbatim>\<open>formatOptions\<close> returns a string on every plain input
  except an array whose first element is an object, an array or \<^verbatim>\<open>null\<close> and that
  holds \<^verbatim>\<open>null\<close>; there it throws.
\<close>

theorem formatters_total:
  "(nullish v \<longrightarrow>
      formatValidation v = Inr [] \<and> formatMapsTo v = Inr [] \<and>
      formatExamples v = Inr [] \<and> formatOptions v = Inr []) \<and>
   (plain v \<longrightarrow>
      (\<exists>s. formatValidation v = Inr s) \<and> (\<exists>s. formatMapsTo v = Inr s) \<and>
      (\<exists>s. formatExamples v = Inr s)) \<and>
   (plain v \<and> options_ok v \<longrightarrow> (\<exists>s. formatOptions v = Inr s)) \<and>
   (\<not> options_ok v \<longrightarrow> formatOptions v = Inl TypeError)"
  by (simp add: formatValidation_nullish formatMapsTo_nullish formatExamples_nullish
      formatOptions_nullish formatValidation_plain formatMapsTo_convertible
      formatExamples_convertible plain_convertible formatOptions_plain formatOptions_throws)

theorem formatters_total_witness:
  "plain (JArr [JStr ''a'', JNull, JNum 3]) \<and> options_ok (JArr [JStr ''a'', JNull, JNum 3]) \<and>
   (\<exists>s. formatValidation (JArr [JStr ''a'', JNull, JNum 3]) = Inr s) \<and>
   (\<exists>s. formatMapsTo (JArr [JStr ''a'', JNull, JNum 3]) = Inr s) \<and>
   (\<exists>s. formatExamples (JArr [JStr ''a'', JNull, JNum 3]) = Inr s) \<and>
   (\<exists>s. formatOptions (JArr [JStr ''a'', JNull, JNum 3]) = Inr s) \<and>
   nullish JNull \<and> formatOptions JNull = Inr [] \<and>
   \<not> options_ok (JArr [JObj [(''value'', JStr ''a'')], JNull]) \<and>
   formatOptions (JArr [JObj [(''value'', JStr ''a'')], JNull]) = Inl TypeError"
proof -
  have 1: "plain (JArr [JStr ''a'', JNull, JNum 3])" by simp
  have 2: "options_ok (JArr [JStr ''a'', JNull, JNum 3])"
    by (simp add: options_ok_def first_element_def)
  have 3: "\<not> options_ok (JArr [JObj [(''value'', JStr ''a'')], JNull])"
    by (simp add: options_ok_def first_element_def)
  have 4: "nullish JNull" by simp
  from 1 2 formatters_total [of "JArr [JStr ''a'', JNull, JNum 3]"]
    3 formatters_total [of "JArr [JObj [(''value'', JStr ''a'')], JNull]"]
    4 formatters_total [of JNull]
  show ?thesis by blast
qed

section \<open>The naming resolver\<close>

lemma next_version_ge: "version \<le> next_version ss baseName version"
proof (induction ss baseName version rule: next_version.induct)
  case (1 ss baseName version)
  show ?case
  proof (cases "getSheetByName ss (versioned baseName version) \<noteq> None")
    case True
    with 1 have "version + 1 \<le> next_version ss baseName (version + 1)" by simp
    with True show ?thesis by (simp add: next_version.simps [of ss baseName version])
  next
    case False
    then show ?thesis by (simp add: next_version.simps [of ss baseName version])
  qed
qed

lemma next_version_free:
  "getSheetByName ss (versioned baseName (next_version ss baseName version)) = None"
proof (induction ss baseName version rule: next_version.induct)
  case (1 ss baseName version)
  show ?case
  proof (cases "getSheetByName ss (versioned baseName version) \<noteq> None")
    case True
    with 1 show ?thesis by (simp add: next_version.simps [of ss baseName version])
  next
    case False
    then show ?thesis by (simp add: next_version.simps [of ss baseName version])
  qed
qed

lemma next_version_taken:
  "version \<le> j \<Longrightarrow> j < next_version ss baseName version \<Longrightarrow>
   getSheetByName ss (versioned baseName j) \<noteq> None"
proof (induction ss baseName version rule: next_version.induct)
  case (1 ss baseName version)
  show ?case
  proof (cases "getSheetByName ss (versioned baseName version) \<noteq> None")
    case True
    show ?thesis
    proof (cases "j = version")
      case True
      with \<open>getSheetByName ss (versioned baseName version) \<noteq> None\<close> show ?thesis by simp
    next
      case False
      with "1.prems" have "version + 1 \<le> j" by simp
      moreover from "1.prems" True have "j < next_version ss baseName (version + 1)"
        by (simp add: next_version.simps [of ss baseName version])
      ultimately show ?thesis using "1.IH" True by simp
    qed
  next
    case False
    with "1.prems" show ?thesis by (simp add: next_version.simps [of ss baseName version])
  qed
qed

lemma sheet_name_named [simp]: "sheet_name (named name) = name"
  by (simp add: named_def)

lemma show_nat_small:
  "show_nat 2 = ''2''" "show_nat 3 = ''3''" "show_nat 4 = ''4''"
  by (simp_all add: show_nat_digit digit_char_def)

lemma collision_walk:
  "getVersionedSheetName [named ''Intake_X'', named ''Intake_X_v2'', named ''Intake_X_v3'']
     (JStr ''X'') False = Inr ''Intake_X_v4''"
proof -
  let ?ss = "[named ''Intake_X'', named ''Intake_X_v2'', named ''Intake_X_v3'']"
  have 4: "next_version ?ss ''Intake_X'' 4 = 4"
    by (simp add: next_version.simps [of ?ss "''Intake_X''" 4] versioned_def show_nat_small
        getSheetByName_def)
  have 3: "next_version ?ss ''Intake_X'' 3 = 4"
    using 4
    by (simp add: next_version.simps [of ?ss "''Intake_X''" 3] versioned_def show_nat_small
        getSheetByName_def)
  have 2: "next_version ?ss ''Intake_X'' 2 = 4"
    using 3
    by (simp add: next_version.simps [of ?ss "''Intake_X''" 2] versioned_def show_nat_small
        getSheetByName_def)
  show ?thesis
    by (simp add: getVersionedSheetName_def ToString_def 2 versioned_def show_nat_small
        getSheetByName_def)
qed

text \<open>
  C9: with the base name \<^verbatim>\<open>Intake_{templateName}\<close>, the resolver returns the base
  name when \<open>forceNew\<close> is false and no sheet has that name; otherwise it returns
  \<^verbatim>\<open>Intake_{templateName}_v{k}\<close> for the smallest \<open>k \<ge> 2\<close> whose name no sheet has (the
  name of \<open>k\<close> is free and every name from 2 up to \<open>k - 1\<close> is taken). With the sheets
  \<^verbatim>\<open>Intake_X\<close>, \<^verbatim>\<open>Intake_X_v2\<close> and \<^verbatim>\<open>Intake_X_v3\<close> it returns \<^verbatim>\<open>Intake_X_v4\<close>. The
  result is always a value: the loop of the resolver ends on every spreadsheet.
\<close>

theorem getVersionedSheetName_resolves:
  "(\<not> forceNew \<and> getSheetByName ss (''Intake_'' @ templateName) = None \<longrightarrow>
      getVersionedSheetName ss (JStr templateName) forceNew = Inr (''Intake_'' @ templateName)) \<and>
   (forceNew \<or> getSheetByName ss (''Intake_'' @ templateName) \<noteq> None \<longrightarrow>
      (\<exists>k. 2 \<le> k \<and>
        getVersionedSheetName ss (JStr templateName) forceNew =
          Inr (''Intake_'' @ templateName @ ''_v'' @ show_nat k) \<and>
        getSheetByName ss (''Intake_'' @ templateName @ ''_v'' @ show_nat k) = None \<and>
        (\<forall>j. 2 \<le> j \<and> j < k \<longrightarrow>
           getSheetByName ss (''Intake_'' @ templateName @ ''_v'' @ show_nat j) \<noteq> None))) \<and>
   getVersionedSheetName [named ''Intake_X'', named ''Intake_X_v2'', named ''Intake_X_v3'']
     (JStr ''X'') False = Inr ''Intake_X_v4''"
proof (intro conjI impI)
  assume "\<not> forceNew \<and> getSheetByName ss (''Intake_'' @ templateName) = None"
  then show "getVersionedSheetName ss (JStr templateName) forceNew = Inr (''Intake_'' @ templateName)"
    by (simp add: getVersionedSheetName_def ToString_def)
next
  assume taken: "forceNew \<or> getSheetByName ss (''Intake_'' @ templateName) \<noteq> None"
  let ?base = "''Intake_'' @ templateName"
  let ?k = "next_version ss ?base 2"
  have "2 \<le> ?k" by (rule next_version_ge)
  moreover from taken have "getVersionedSheetName ss (JStr templateName) forceNew =
      Inr (''Intake_'' @ templateName @ ''_v'' @ show_nat ?k)"
    by (auto simp: getVersionedSheetName_def ToString_def versioned_def)
  moreover have "getSheetByName ss (''Intake_'' @ templateName @ ''_v'' @ show_nat ?k) = None"
    using next_version_free [of ss ?base 2] by (simp add: versioned_def)
  moreover have "\<forall>j. 2 \<le> j \<and> j < ?k \<longrightarrow>
      getSheetByName ss (''Intake_'' @ templateName @ ''_v'' @ show_nat j) \<noteq> None"
    using next_version_taken [of 2 _ ss ?base] by (simp add: versioned_def)
  ultimately show "\<exists>k. 2 \<le> k \<and>
        getVersionedSheetName ss (JStr templateName) forceNew =
          Inr (''Intake_'' @ templateName @ ''_v'' @ show_nat k) \<and>
        getSheetByName ss (''Intake_'' @ templateName @ ''_v'' @ show_nat k) = None \<and>
        (\<forall>j. 2 \<le> j \<and> j < k \<longrightarrow>
           getSheetByName ss (''Intake_'' @ templateName @ ''_v'' @ show_nat j) \<noteq> None)"
    by blast
next
  show "getVersionedSheetName [named ''Intake_X'', named ''Intake_X_v2'', named ''Intake_X_v3'']
     (JStr ''X'') False = Inr ''Intake_X_v4''"
    by (rule collision_walk)
qed

theorem getVersionedSheetName_resolves_witness:
  "getSheetByName [named ''Intake_Y_v2''] (''Intake_'' @ ''Y'') = None \<and>
   getVersionedSheetName [named ''Intake_Y_v2''] (JStr ''Y'') False = Inr (''Intake_'' @ ''Y'') \<and>
   (\<exists>k. 2 \<le> k \<and>
      getVersionedSheetName [named ''Intake_Y_v2''] (JStr ''Y'') True =
        Inr (''Intake_'' @ ''Y'' @ ''_v'' @ show_nat k) \<and>
      getSheetByName [named ''Intake_Y_v2''] (''Intake_'' @ ''Y'' @ ''_v'' @ show_nat k) = None)"
proof -
  have free: "getSheetByName [named ''Intake_Y_v2''] (''Intake_'' @ ''Y'') = None"
    by (simp add: getSheetByName_def)
  with getVersionedSheetName_resolves [of False "[named ''Intake_Y_v2'']" "''Y''"]
  have fresh: "getVersionedSheetName [named ''Intake_Y_v2''] (JStr ''Y'') False =
      Inr (''Intake_'' @ ''Y'')"
    by blast
  from getVersionedSheetName_resolves [of True "[named ''Intake_Y_v2'']" "''Y''"]
  have "\<exists>k. 2 \<le> k \<and>
      getVersionedSheetName [named ''Intake_Y_v2''] (JStr ''Y'') True =
        Inr (''Intake_'' @ ''Y'' @ ''_v'' @ show_nat k) \<and>
      getSheetByName [named ''Intake_Y_v2''] (''Intake_'' @ ''Y'' @ ''_v'' @ show_nat k) = None"
    by blast
  with free fresh show ?thesis by blast
qed

section \<open>The identity guard\<close>

lemma set_has_iff: "set_has members x \<longleftrightarrow> x \<in> set members \<and> primitive x"
  by (auto simp: set_has_def same_value_zero_def list_ex_iff)

lemma set_set_add: "primitive x \<Longrightarrow> set (set_add members x) = insert x (set members)"
  by (auto simp: set_add_def set_has_iff)

lemma distinct_set_add: "distinct members \<Longrightarrow> primitive x \<Longrightarrow> distinct (set_add members x)"
  by (auto simp: set_add_def set_has_iff)

lemma count_list_gt_1_Cons:
  "1 < count_list (a # xs) x \<longleftrightarrow> (x = a \<and> a \<in> set xs) \<or> 1 < count_list xs x"
proof (cases "x = a")
  case True
  have "0 < count_list xs a \<longleftrightarrow> a \<in> set xs"
    using count_list_0_iff [of xs a] by auto
  with True show ?thesis by auto
next
  case False
  then show ?thesis by simp
qed

lemma fold_note_id:
  "list_all primitive ids \<Longrightarrow>
   set (fst (fold note_id ids (seen, duplicates))) = set seen \<union> set ids \<and>
   set (snd (fold note_id ids (seen, duplicates))) =
     set duplicates \<union> {x \<in> set ids. x \<in> set seen} \<union> {x. 1 < count_list ids x}"
proof (induction ids arbitrary: seen duplicates)
  case Nil
  then show ?case by simp
next
  case (Cons a ids)
  then have a: "primitive a" and ids: "list_all primitive ids" by simp_all
  have step: "note_id a (seen, duplicates) =
      (set_add seen a, if a \<in> set seen then duplicates @ [a] else duplicates)"
    using a by (simp add: note_id_def set_has_iff)
  show ?case
    using Cons.IH [OF ids, of "set_add seen a" "if a \<in> set seen then duplicates @ [a] else duplicates"]
    by (auto simp: step set_set_add [OF a] count_list_gt_1_Cons count_list_0_iff)
qed

lemma fold_set_add:
  "list_all primitive ds \<Longrightarrow>
   set (fold (\<lambda>d members. set_add members d) ds members) = set members \<union> set ds \<and>
   (distinct members \<longrightarrow> distinct (fold (\<lambda>d members. set_add members d) ds members))"
proof (induction ds arbitrary: members)
  case Nil
  then show ?case by simp
next
  case (Cons d ds)
  then have d: "primitive d" and ds: "list_all primitive ds" by simp_all
  show ?case
    using Cons.IH [OF ds, of "set_add members d"]
    by (auto simp: set_set_add [OF d] distinct_set_add [OF _ d])
qed

lemma count_list_gt_1_mem: "1 < count_list xs x \<Longrightarrow> x \<in> set xs"
  using count_list_0_iff [of xs x] by (cases "x \<in> set xs") auto

lemma checkDuplicateIds_primitive:
  assumes "list_all (\<lambda>row. primitive (cell row 2)) rs"
  shows "set (checkDuplicateIds rs) = {ident. 1 < count_list (map (\<lambda>row. cell row 2) rs) ident}"
    and "distinct (checkDuplicateIds rs)"
proof -
  let ?ids = "map (\<lambda>row. cell row 2) rs"
  let ?dups = "snd (fold note_id ?ids ([], []))"
  from assms have ids: "list_all primitive ?ids" by (simp add: list_all_iff)
  from fold_note_id [OF ids, of "[]" "[]"]
  have dups: "set ?dups = {x. 1 < count_list ?ids x}" by simp
  then have "set ?dups \<subseteq> set ?ids" using count_list_gt_1_mem by fastforce
  with ids have prim: "list_all primitive ?dups" by (auto simp: list_all_iff)
  from fold_set_add [OF prim, of "[]"] dups
  show "set (checkDuplicateIds rs) = {ident. 1 < count_list ?ids ident}"
    and "distinct (checkDuplicateIds rs)"
    by (simp_all add: checkDuplicateIds_def Let_def)
qed

lemma checkDuplicateIds_example:
  "checkDuplicateIds (map row_with_id [''a'', ''b'', ''a'', ''c'', ''b'', ''b'']) =
     [JStr ''a'', JStr ''b'']"
  by (simp add: checkDuplicateIds_def row_with_id_def cell_def note_id_def set_add_def
      set_has_def same_value_zero_def)

text \<open>
  C10: for rows whose question identifier (cell 2) is a string, a number, a boolean,
  \<^verbatim>\<open>null\<close> or \<^verbatim>\<open>undefined\<close>, the identifiers that \<^verbatim>\<open>checkDuplicateIds\<close> returns are
  exactly those that occur more than once among the rows, and none is returned
  twice. For the identifiers a, b, a, c, b, b it returns a and b.
\<close>

theorem checkDuplicateIds_reports_duplicates:
  "(list_all (\<lambda>row. primitive (cell row 2)) rs \<longrightarrow>
      set (checkDuplicateIds rs) = {ident. 1 < count_list (map (\<lambda>row. cell row 2) rs) ident} \<and>
      distinct (checkDuplicateIds rs)) \<and>
   set (checkDuplicateIds (map row_with_id [''a'', ''b'', ''a'', ''c'', ''b'', ''b''])) =
     {JStr ''a'', JStr ''b''}"
proof (intro conjI impI)
  assume prim: "list_all (\<lambda>row. primitive (cell row 2)) rs"
  then show "set (checkDuplicateIds rs) =
      {ident. 1 < count_list (map (\<lambda>row. cell row 2) rs) ident}"
    by (rule checkDuplicateIds_primitive)
  from prim show "distinct (checkDuplicateIds rs)"
    by (rule checkDuplicateIds_primitive)
next
  show "set (checkDuplicateIds (map row_with_id [''a'', ''b'', ''a'', ''c'', ''b'', ''b''])) =
      {JStr ''a'', JStr ''b''}"
    by (simp only: checkDuplicateIds_example) simp
qed

theorem checkDuplicateIds_reports_duplicates_witness:
  "list_all (\<lambda>row. primitive (cell row 2)) [row_with_id ''q1'', row_with_id ''q2'', row_with_id ''q1''] \<and>
   set (checkDuplicateIds [row_with_id ''q1'', row_with_id ''q2'', row_with_id ''q1'']) =
     {ident. 1 < count_list (map (\<lambda>row. cell row 2)
        [row_with_id ''q1'', row_with_id ''q2'', row_with_id ''q1'']) ident} \<and>
   distinct (checkDuplicateIds [row_with_id ''q1'', row_with_id ''q2'', row_with_id ''q1''])"
proof -
  have prim: "list_all (\<lambda>row. primitive (cell row 2))
      [row_with_id ''q1'', row_with_id ''q2'', row_with_id ''q1'']"
    by (simp add: row_with_id_def cell_def)
  with checkDuplicateIds_reports_duplicates
    [of "[row_with_id ''q1'', row_with_id ''q2'', row_with_id ''q1'']"]
  show ?thesis by blast
qed

section \<open>The row projector\<close>

lemma processStandardQuestion_Inr:
  assumes "processStandardQuestion q s = Inr parent"
  shows "\<not> nullish s \<and> \<not> nullish q \<and>
    (\<exists>v m e opt.
       formatValidation (property q ''validation'') = Inr v \<and>
       formatMapsTo (property q ''maps_to'') = Inr m \<and>
       formatExamples (property q ''examples'') = Inr e \<and>
       formatOptions (property q ''options'') = Inr opt \<and>
       parent =
         [js_or (property s ''section_id'') (JStr ''''),
          js_or (property s ''section_name'') (JStr ''''),
          js_or (property q ''id'') (JStr ''''),
          js_or (property q ''question'') (JStr ''''),
          js_or (property q ''context'') (JStr ''''),
          js_or (property q ''type'') (JStr ''text''),
          (if property q ''required'' \<noteq> JUndefined then property q ''required'' else JBool True),
          JStr v, JStr m,
          js_or (property q ''default'') (JStr ''''),
          JStr e, JStr opt])"
  using assms
  by (auto simp: processStandardQuestion_def js_get_eq bind_r_eq_Inr split: if_splits)

lemma processStandardQuestion_total:
  assumes "\<not> nullish s" "\<not> nullish q"
    "formatValidation (property q ''validation'') = Inr v"
    "formatMapsTo (property q ''maps_to'') = Inr m"
    "formatExamples (property q ''examples'') = Inr e"
    "formatOptions (property q ''options'') = Inr opt"
  shows "\<exists>parent. processStandardQuestion q s = Inr parent"
  using assms by (simp add: processStandardQuestion_def js_get_eq)

lemma isComplexType_iff:
  "isComplexType t \<longleftrightarrow>
     t = JStr ''service_object'' \<or> t = JStr ''testimonial_object'' \<or>
     t = JStr ''social_links_object'' \<or> t = JStr ''text_array'' \<or> t = JStr ''file_upload''"
  by (auto simp: isComplexType_def complexTypes_def)

lemma set_cell_7:
  "length r = 12 \<Longrightarrow> set_cell r 7 x = r[7 := x]"
  by (simp add: set_cell_def)

lemma completes_iff: "completes r \<longleftrightarrow> (\<exists>x. r = Inr x)"
  by (cases r) (simp_all add: completes_def)

lemma map_r_length: "map_r f xs = Inr ys \<Longrightarrow> length ys = length xs"
  by (induction xs arbitrary: ys) (auto simp: bind_r_eq_Inr)

lemma map_r_completes:
  "list_all (\<lambda>x. completes (f x)) xs \<Longrightarrow> completes (map_r f xs)"
  by (induction xs) (auto simp: completes_iff)

lemma forEach_r_completes:
  "(\<And>x acc. x \<in> set xs \<Longrightarrow> completes (f x acc)) \<Longrightarrow> completes (forEach_r f xs acc)"
proof (induction xs arbitrary: acc)
  case Nil
  then show ?case by (simp add: completes_def)
next
  case (Cons x xs)
  from Cons.prems [of x acc] obtain acc' where "f x acc = Inr acc'"
    by (auto simp: completes_iff)
  moreover have "completes (forEach_r f xs acc')"
    by (rule Cons.IH) (simp add: Cons.prems)
  ultimately show ?case by simp
qed

lemma own_properties_declared:
  assumes "distinct (map fst kvs)" "\<not> list_ex is_array_index (map fst kvs)"
  shows "own_properties kvs = kvs"
proof -
  from assms(1) have "AList.clearjunk kvs = kvs" by (rule distinct_clearjunk_id)
  moreover from assms(2) have "filter (\<lambda>p. is_array_index (fst p)) kvs = []"
    by (auto simp: list_ex_iff filter_empty_conv)
  moreover from assms(2) have "filter (\<lambda>p. \<not> is_array_index (fst p)) kvs = kvs"
    by (auto simp: list_ex_iff filter_id_conv)
  ultimately show ?thesis by (simp add: own_properties_def)
qed

lemma plain_js_or: "plain a \<Longrightarrow> plain b \<Longrightarrow> plain (js_or a b)"
  by (simp add: js_or_def)

lemma truthy_not_nullish: "truthy v \<Longrightarrow> \<not> nullish v"
  by (cases v) simp_all

lemma isArray_elements: "isArray v \<Longrightarrow> v = JArr (elements v)"
  by (cases v) (simp_all add: elements_def)

lemma property_array_not_nullish: "isArray (property v p) \<Longrightarrow> \<not> nullish v"
  by (cases v) (simp_all add: property_def)

lemma object_field_row_eq:
  assumes "\<not> nullish s" "\<not> nullish q" "\<not> nullish fieldConfig"
    and "convertible (property q ''id'')" "convertible (property q ''question'')"
    and "formatMapsTo (property q ''maps_to'') = Inr m"
    and "completes (formatValidation
           (js_or (property fieldConfig ''validation'') (property fieldConfig ''max_length'')))"
  shows "object_field_row q s (fieldName, fieldConfig) =
    Inr [js_or (property s ''section_id'') (JStr []),
         js_or (property s ''section_name'') (JStr []),
         JStr (string_of (property q ''id'') @ ''.'' @ fieldName),
         JStr (string_of (property q ''question'') @ '' - '' @ fieldName),
         js_or (property q ''context'') (JStr []),
         js_or (property fieldConfig ''type'') (JStr ''text''),
         js_or (property fieldConfig ''required'') (JBool False),
         JStr (projr (formatValidation
                 (js_or (property fieldConfig ''validation'') (property fieldConfig ''max_length'')))),
         JStr (m @ ''.'' @ fieldName),
         js_or (property fieldConfig ''default'') (JStr []),
         JStr [],
         JStr []]"
proof -
  from assms(7) obtain v where v: "formatValidation
      (js_or (property fieldConfig ''validation'') (property fieldConfig ''max_length'')) = Inr v"
    by (auto simp: completes_iff)
  from assms(1-6) v show ?thesis
    by (cases "truthy (property fieldConfig ''validation'')")
      (simp_all add: object_field_row_def js_get_eq ToString_def js_or_def)
qed

lemma social_link_row_eq:
  assumes "\<not> nullish s" "\<not> nullish q" "\<not> nullish config"
    and "convertible (property q ''id'')" "convertible (property q ''question'')"
    and "formatMapsTo (property q ''maps_to'') = Inr m"
  shows "social_link_row q s (platform, config) =
    Inr [js_or (property s ''section_id'') (JStr []),
         js_or (property s ''section_name'') (JStr []),
         JStr (string_of (property q ''id'') @ ''.'' @ platform),
         JStr (string_of (property q ''question'') @ '' - '' @ platform),
         js_or (property q ''context'') (JStr []),
         js_or (property config ''type'') (JStr ''url''),
         js_or (property config ''required'') (JBool False),
         JStr ''format: url'',
         JStr (m @ ''.'' @ platform),
         JStr [],
         JStr [],
         JStr []]"
  using assms by (simp add: social_link_row_def js_get_eq ToString_def)

subsection \<open>Text arrays\<close>

lemma text_array_complex:
  assumes type: "property q ''type'' = JStr ''text_array''"
    and parent: "processStandardQuestion q s = Inr parent"
    and items: "convertible (property q ''max_items'')"
  shows "processComplexType q s =
    Inr [parent[7 := JStr (''max_items: '' @ string_of (js_or (property q ''max_items'') (JNum 10)) @
                          '', '' @ string_of (cell parent 7))]]"
proof -
  from processStandardQuestion_Inr [OF parent]
  have q: "\<not> nullish q" and len: "length parent = 12" and conv: "convertible (cell parent 7)"
    by (auto simp: cell_def)
  from items have "convertible (js_or (property q ''max_items'') (JNum 10))"
    by (simp add: js_or_def)
  with q type parent len conv show ?thesis
    by (simp add: processComplexType_def expand_object_fields_def expand_social_links_def
        patch_text_array_def patch_file_upload_def js_get_eq ToString_def set_cell_7)
qed

lemma text_array_question:
  assumes type: "property q ''type'' = JStr ''text_array''"
    and parent: "processStandardQuestion q s = Inr parent"
  shows "\<not> nullish q" "isComplexType (property q ''type'')"
  using processStandardQuestion_Inr [OF parent] type by (simp_all add: isComplexType_iff)

text \<open>
  C6: a \<^verbatim>\<open>text_array\<close> question whose standard projection completes (and whose
  \<^verbatim>\<open>max_items\<close> converts to a string, as every number does) contributes exactly one
  row: the standard row with \<^verbatim>\<open>max_items: {max_items || 10}, \<close> put in front of the
  validation text the standard projection computed. An absent \<^verbatim>\<open>max_items\<close> gives 10.
\<close>

theorem text_array_rows:
  assumes type: "property q ''type'' = JStr ''text_array''"
    and parent: "processStandardQuestion q s = Inr parent"
    and items: "convertible (property q ''max_items'')"
  shows "\<exists>v. formatValidation (property q ''validation'') = Inr v \<and>
           cell parent 7 = JStr v \<and>
           question_rows s q =
             Inr [parent[7 := JStr (''max_items: '' @
                                    string_of (js_or (property q ''max_items'') (JNum 10)) @
                                    '', '' @ v)]] \<and>
           (property q ''max_items'' = JUndefined \<longrightarrow>
              string_of (js_or (property q ''max_items'') (JNum 10)) = ''10'')"
proof -
  from processStandardQuestion_Inr [OF parent] obtain v where
    v: "formatValidation (property q ''validation'') = Inr v" "cell parent 7 = JStr v"
    by (auto simp: cell_def)
  have rows: "question_rows s q = processComplexType q s"
    using text_array_question [OF type parent] by (simp add: question_rows_def js_get_eq)
  have ten: "string_of (js_or JUndefined (JNum 10)) = ''10''"
    by (simp add: js_or_def show_int_def show_nat.simps [of 10] show_nat_digit digit_char_def)
  from v rows text_array_complex [OF type parent items] ten show ?thesis by auto
qed

lemma tags_parent:
  "processStandardQuestion tags_question basics_section =
     Inr [JStr ''s1'', JStr ''Basics'', JStr ''tags'', JStr ''Tags?'', JStr [], JStr ''text_array'',
          JBool True, JStr ''short words'', JStr [], JStr [], JStr [], JStr []]"
  by code_simp

theorem text_array_rows_witness:
  "property tags_question ''type'' = JStr ''text_array'' \<and>
   convertible (property tags_question ''max_items'') \<and>
   question_rows basics_section tags_question =
     Inr [[JStr ''s1'', JStr ''Basics'', JStr ''tags'', JStr ''Tags?'', JStr [], JStr ''text_array'',
           JBool True, JStr ''max_items: 3, short words'', JStr [], JStr [], JStr [], JStr []]]"
proof -
  have type: "property tags_question ''type'' = JStr ''text_array''"
    by (simp add: tags_question_def property_def)
  have items: "property tags_question ''max_items'' = JNum 3"
    by (simp add: tags_question_def property_def)
  then have conv: "convertible (property tags_question ''max_items'')" by simp
  have rule: "formatValidation (property tags_question ''validation'') = Inr ''short words''"
    by (simp add: tags_question_def property_def formatValidation_def)
  have three: "string_of (js_or (JNum 3) (JNum 10)) = ''3''"
    by (simp add: js_or_def show_int_def show_nat_digit digit_char_def)
  from text_array_rows [OF type tags_parent conv] rule
  have "question_rows basics_section tags_question =
     Inr [[JStr ''s1'', JStr ''Basics'', JStr ''tags'', JStr ''Tags?'', JStr [], JStr ''text_array'',
           JBool True, JStr ''short words'', JStr [], JStr [], JStr [], JStr []]
          [7 := JStr (''max_items: '' @ string_of (js_or (JNum 3) (JNum 10)) @ '', '' @
                      ''short words'')]]"
    by (auto simp: items)
  with type conv three show ?thesis by simp
qed

subsection \<open>File uploads\<close>

lemma file_upload_complex:
  assumes type: "property q ''type'' = JStr ''file_upload''"
    and parent: "processStandardQuestion q s = Inr parent"
    and array: "truthy (property q ''file_types'') \<longrightarrow> isArray (property q ''file_types'')"
    and types: "convertible (property q ''file_types'')"
    and size: "convertible (property q ''max_size'')"
  shows "processComplexType q s =
    Inr [parent[7 := JStr (join_with '', ''
      ((if truthy (property q ''file_types'')
        then [''file_types: '' @ join_with '','' (map element_string (elements (property q ''file_types'')))]
        else []) @
       (if truthy (property q ''max_size'')
        then [''max_size: '' @ string_of (property q ''max_size'')]
        else [])))]]"
proof -
  from processStandardQuestion_Inr [OF parent]
  have q: "\<not> nullish q" and len: "length parent = 12" by auto
  have types_part:
    "(if truthy (property q ''file_types'') then
        bind_r (array_receiver (property q ''file_types'')) (\<lambda>xs.
        bind_r (join xs '','') (\<lambda>joined. Inr [''file_types: '' @ joined]))
      else Inr []) =
     Inr (if truthy (property q ''file_types'')
          then [''file_types: '' @ join_with '','' (map element_string (elements (property q ''file_types'')))]
          else [])"
    using array types by (cases "property q ''file_types''") (simp_all add: join_def elements_def)
  from q type parent len size show ?thesis
    by (simp add: processComplexType_def expand_object_fields_def expand_social_links_def
        patch_text_array_def patch_file_upload_def js_get_eq ToString_def set_cell_7 types_part)
qed



lemma upload_parent:
  "processStandardQuestion upload_question basics_section =
     Inr [JStr ''s1'', JStr ''Basics'', JStr ''logo'', JStr ''Logo?'', JStr [], JStr ''file_upload'',
          JBool True, JStr ''required field'', JStr [], JStr [], JStr [], JStr []]"
  by code_simp

lemma bare_upload_parent:
  "processStandardQuestion bare_upload_question basics_section =
     Inr [JStr ''s1'', JStr ''Basics'', JStr ''logo'', JStr ''Logo?'', JStr [], JStr ''file_upload'',
          JBool True, JStr ''required field'', JStr [], JStr [], JStr [], JStr []]"
  by code_simp


subsection \<open>Service and testimonial objects\<close>

text \<open>
  C7, as stated, fails for a field whose \<^verbatim>\<open>validation\<close> is the empty string and
  whose \<^verbatim>\<open>max_length\<close> is 50: \<^verbatim>\<open>validation ?? maxLength\<close> is the empty string and
  formats to the empty string, but the source takes \<^verbatim>\<open>validation || max_length\<close>,
  which is 50, and the child row has \<^verbatim>\<open>max_length: 50\<close>. It also fails for the fields
  \<^verbatim>\<open>{"b": {}, "1": {}}\<close>: \<^verbatim>\<open>Object.entries\<close> lists the array index \<^verbatim>\<open>1\<close> first,
  so the child rows do not come in declaration order.
\<close>

theorem field_validation_counterexample:
  "question_rows basics_section service_question =
     Inr [[JStr ''s1'', JStr ''Basics'', JStr ''svc'', JStr ''Service'', JStr [],
           JStr ''service_object'', JBool True, JStr [], JStr ''services'', JStr [], JStr [],
           JStr []],
          [JStr ''s1'', JStr ''Basics'', JStr ''svc.name'', JStr ''Service - name'', JStr [],
           JStr ''text'', JBool False, JStr ''max_length: 50'', JStr ''services.name'', JStr [],
           JStr [], JStr []],
          [JStr ''s1'', JStr ''Basics'', JStr ''svc.price'', JStr ''Service - price'', JStr [],
           JStr ''number'', JBool True, JStr [], JStr ''services.price'', JStr [], JStr [],
           JStr []]] \<and>
   claimed_field_validation (JObj [(''validation'', JStr []), (''max_length'', JNum 50)]) = Inr [] \<and>
   question_rows basics_section numbered_fields_question =
     Inr [[JStr ''s1'', JStr ''Basics'', JStr ''svc'', JStr ''Service'', JStr [],
           JStr ''service_object'', JBool True, JStr [], JStr [], JStr [], JStr [], JStr []],
          [JStr ''s1'', JStr ''Basics'', JStr ''svc.1'', JStr ''Service - 1'', JStr [],
           JStr ''text'', JBool False, JStr [], JStr ''.1'', JStr [], JStr [], JStr []],
          [JStr ''s1'', JStr ''Basics'', JStr ''svc.b'', JStr ''Service - b'', JStr [],
           JStr ''text'', JBool False, JStr [], JStr ''.b'', JStr [], JStr [], JStr []]]"
  by code_simp

text \<open>
  C7 (amended): for a \<^verbatim>\<open>service_object\<close> or \<^verbatim>\<open>testimonial_object\<close> question whose
  standard projection completes, whose \<^verbatim>\<open>id\<close> and \<^verbatim>\<open>question\<close> convert to strings,
  and whose \<^verbatim>\<open>fields\<close> mapping has \<open>N\<close> entries with configurations that are not
  \<^verbatim>\<open>null\<close> and have a rule that formats, flattening contributes exactly \<open>1 + N\<close> rows:
  the standard row, then one child row per entry in the order of \<^verbatim>\<open>Object.entries\<close>
  (the declaration order when no field name is an array index). The child has the
  identifier \<^verbatim>\<open>{id}.{fieldName}\<close>, the prompt \<^verbatim>\<open>{question} - {fieldName}\<close>, the
  context of the parent, \<^verbatim>\<open>type || 'text'\<close>, \<^verbatim>\<open>required || false\<close>, the validation
  \<^verbatim>\<open>formatValidation(validation || max_length)\<close>, the mapping
  \<^verbatim>\<open>{formatMapsTo(maps_to)}.{fieldName}\<close>, \<^verbatim>\<open>default || ''\<close>, and empty examples and
  options.
\<close>

theorem object_fields_rows:
  assumes type: "property q ''type'' = JStr ''service_object'' \<or>
                 property q ''type'' = JStr ''testimonial_object''"
    and parent: "processStandardQuestion q s = Inr parent"
    and fields: "property q ''fields'' = JObj kvs"
    and ident: "convertible (property q ''id'')"
    and prompt: "convertible (property q ''question'')"
    and configs: "list_all
        (\<lambda>(fieldName, fieldConfig). \<not> nullish fieldConfig \<and>
           completes (formatValidation
             (js_or (property fieldConfig ''validation'') (property fieldConfig ''max_length''))))
        (own_properties kvs)"
  shows "\<exists>m rs.
    formatMapsTo (property q ''maps_to'') = Inr m \<and>
    question_rows s q = Inr rs \<and>
    length rs = 1 + length (own_properties kvs) \<and>
    rs = parent #
      map (\<lambda>(fieldName, fieldConfig).
             [js_or (property s ''section_id'') (JStr []),
              js_or (property s ''section_name'') (JStr []),
              JStr (string_of (property q ''id'') @ ''.'' @ fieldName),
              JStr (string_of (property q ''question'') @ '' - '' @ fieldName),
              js_or (property q ''context'') (JStr []),
              js_or (property fieldConfig ''type'') (JStr ''text''),
              js_or (property fieldConfig ''required'') (JBool False),
              JStr (projr (formatValidation
                      (js_or (property fieldConfig ''validation'')
                             (property fieldConfig ''max_length'')))),
              JStr (m @ ''.'' @ fieldName),
              js_or (property fieldConfig ''default'') (JStr []),
              JStr [],
              JStr []])
          (own_properties kvs) \<and>
    (distinct (map fst kvs) \<and> \<not> list_ex is_array_index (map fst kvs) \<longrightarrow>
       own_properties kvs = kvs)"
proof -
  from processStandardQuestion_Inr [OF parent] obtain m where
    s: "\<not> nullish s" and q: "\<not> nullish q"
    and m: "formatMapsTo (property q ''maps_to'') = Inr m"
    by auto
  let ?child = "\<lambda>(fieldName, fieldConfig).
             [js_or (property s ''section_id'') (JStr []),
              js_or (property s ''section_name'') (JStr []),
              JStr (string_of (property q ''id'') @ ''.'' @ fieldName),
              JStr (string_of (property q ''question'') @ '' - '' @ fieldName),
              js_or (property q ''context'') (JStr []),
              js_or (property fieldConfig ''type'') (JStr ''text''),
              js_or (property fieldConfig ''required'') (JBool False),
              JStr (projr (formatValidation
                      (js_or (property fieldConfig ''validation'')
                             (property fieldConfig ''max_length'')))),
              JStr (m @ ''.'' @ fieldName),
              js_or (property fieldConfig ''default'') (JStr []),
              JStr [],
              JStr []]"
  have children: "map_r (object_field_row q s) (own_properties kvs) =
      Inr (map ?child (own_properties kvs))"
  proof (rule map_r_total)
    show "list_all (\<lambda>x. object_field_row q s x = Inr (?child x)) (own_properties kvs)"
      using configs object_field_row_eq [OF s q _ ident prompt m]
      by (auto simp: list_all_iff)
  qed
  from type have complex: "isComplexType (property q ''type'')"
    by (auto simp: isComplexType_iff)
  from type have others:
    "property q ''type'' \<noteq> JStr ''social_links_object''"
    "property q ''type'' \<noteq> JStr ''text_array''"
    "property q ''type'' \<noteq> JStr ''file_upload''"
    by auto
  have "question_rows s q = Inr (parent # map ?child (own_properties kvs))"
    using q complex type others parent fields children
    by (auto simp: question_rows_def processComplexType_def expand_object_fields_def
        expand_social_links_def patch_text_array_def patch_file_upload_def js_get_eq)
  with m own_properties_declared [of kvs] show ?thesis by auto
qed

lemma service_parent:
  "processStandardQuestion service_question basics_section =
     Inr [JStr ''s1'', JStr ''Basics'', JStr ''svc'', JStr ''Service'', JStr [],
          JStr ''service_object'', JBool True, JStr [], JStr ''services'', JStr [], JStr [],
          JStr []]"
  by code_simp

theorem object_fields_rows_witness:
  "question_rows basics_section service_question =
     Inr [[JStr ''s1'', JStr ''Basics'', JStr ''svc'', JStr ''Service'', JStr [],
           JStr ''service_object'', JBool True, JStr [], JStr ''services'', JStr [], JStr [],
           JStr []],
          [JStr ''s1'', JStr ''Basics'', JStr ''svc.name'', JStr ''Service - name'', JStr [],
           JStr ''text'', JBool False, JStr ''max_length: 50'', JStr ''services.name'', JStr [],
           JStr [], JStr []],
          [JStr ''s1'', JStr ''Basics'', JStr ''svc.price'', JStr ''Service - price'', JStr [],
           JStr ''number'', JBool True, JStr [], JStr ''services.price'', JStr [], JStr [],
           JStr []]]"
proof -
  let ?kvs = "[(''name'', JObj [(''validation'', JStr []), (''max_length'', JNum 50)]),
               (''price'', JObj [(''type'', JStr ''number''), (''required'', JBool True)])]"
  have type: "property service_question ''type'' = JStr ''service_object'' \<or>
              property service_question ''type'' = JStr ''testimonial_object''"
    by (simp add: service_question_def property_def)
  have fields: "property service_question ''fields'' = JObj ?kvs"
    by (simp add: service_question_def property_def)
  have texts: "convertible (property service_question ''id'')"
    "convertible (property service_question ''question'')"
    by (simp_all add: service_question_def property_def)
  have own: "own_properties ?kvs = ?kvs"
    by code_simp
  have configs: "list_all
        (\<lambda>(fieldName, fieldConfig). \<not> nullish fieldConfig \<and>
           completes (formatValidation
             (js_or (property fieldConfig ''validation'') (property fieldConfig ''max_length''))))
        (own_properties ?kvs)"
    by code_simp
  have maps: "formatMapsTo (property service_question ''maps_to'') = Inr ''services''"
    by code_simp
  have rules:
    "formatValidation (JNum 50) = Inr ''max_length: 50''"
    "formatValidation JUndefined = Inr []"
    by (simp_all add: formatValidation_number formatValidation_nullish show_int_def
        show_nat_50)
  from object_fields_rows [OF type service_parent fields texts configs] maps
  show ?thesis
    by (auto simp: own property_def rules js_or_def service_question_def basics_section_def)
qed

subsection \<open>Social links\<close>

lemma contact_flattened:
  "flattenIntakeJSON contact_document =
     Inr \<lparr>rows =
            [[JStr ''s1'', JStr ''Basics'', JStr ''q1'', JStr ''Name?'', JStr [], JStr ''text'',
              JBool True, JStr [], JStr [], JStr [], JStr [], JStr []],
             [JStr ''s1'', JStr ''Basics'', JStr ''q2'', JStr ''Links'', JStr [],
              JStr ''social_links_object'', JBool True, JStr [], JStr [], JStr [], JStr [],
              JStr []],
             [JStr ''s1'', JStr ''Basics'', JStr ''q2.twitter'', JStr ''Links - twitter'', JStr [],
              JStr ''url'', JBool False, JStr ''format: url'', JStr ''.twitter'', JStr [],
              JStr [], JStr []]],
          sectionCount = 1\<rparr>"
  by code_simp

text \<open>
  C8: for a \<^verbatim>\<open>social_links_object\<close> question whose standard projection completes,
  whose \<^verbatim>\<open>id\<close> and \<^verbatim>\<open>question\<close> convert to strings and whose \<^verbatim>\<open>fields\<close>
  configurations are not \<^verbatim>\<open>null\<close>, every entry of \<^verbatim>\<open>fields\<close>
  yields one child row after the parent row, with \<^verbatim>\<open>type || 'url'\<close>, the validation
  \<^verbatim>\<open>format: url\<close> whatever the configuration, the mapping
  \<^verbatim>\<open>{formatMapsTo(maps_to)}.{platform}\<close> (so \<^verbatim>\<open>.{platform}\<close> when the parent has no
  \<^verbatim>\<open>maps_to\<close>), and empty default, examples and options. The document of the
  end-to-end scenario flattens to exactly three rows.
\<close>

theorem social_links_rows:
  assumes type: "property q ''type'' = JStr ''social_links_object''"
    and parent: "processStandardQuestion q s = Inr parent"
    and fields: "property q ''fields'' = JObj kvs"
    and ident: "convertible (property q ''id'')"
    and prompt: "convertible (property q ''question'')"
    and configs: "list_all (\<lambda>(platform, config). \<not> nullish config) (own_properties kvs)"
  shows "(\<exists>m rs.
      formatMapsTo (property q ''maps_to'') = Inr m \<and>
      (nullish (property q ''maps_to'') \<longrightarrow> m = []) \<and>
      question_rows s q = Inr rs \<and>
      rs = parent #
        map (\<lambda>(platform, config).
               [js_or (property s ''section_id'') (JStr []),
                js_or (property s ''section_name'') (JStr []),
                JStr (string_of (property q ''id'') @ ''.'' @ platform),
                JStr (string_of (property q ''question'') @ '' - '' @ platform),
                js_or (property q ''context'') (JStr []),
                js_or (property config ''type'') (JStr ''url''),
                js_or (property config ''required'') (JBool False),
                JStr ''format: url'',
                JStr (m @ ''.'' @ platform),
                JStr [],
                JStr [],
                JStr []])
            (own_properties kvs)) \<and>
    flattenIntakeJSON contact_document =
      Inr \<lparr>rows =
             [[JStr ''s1'', JStr ''Basics'', JStr ''q1'', JStr ''Name?'', JStr [], JStr ''text'',
               JBool True, JStr [], JStr [], JStr [], JStr [], JStr []],
              [JStr ''s1'', JStr ''Basics'', JStr ''q2'', JStr ''Links'', JStr [],
               JStr ''social_links_object'', JBool True, JStr [], JStr [], JStr [], JStr [],
               JStr []],
              [JStr ''s1'', JStr ''Basics'', JStr ''q2.twitter'', JStr ''Links - twitter'', JStr [],
               JStr ''url'', JBool False, JStr ''format: url'', JStr ''.twitter'', JStr [],
               JStr [], JStr []]],
           sectionCount = 1\<rparr>"
proof -
  from processStandardQuestion_Inr [OF parent] obtain m where
    s: "\<not> nullish s" and q: "\<not> nullish q"
    and m: "formatMapsTo (property q ''maps_to'') = Inr m"
    by auto
  let ?child = "\<lambda>(platform, config).
               [js_or (property s ''section_id'') (JStr []),
                js_or (property s ''section_name'') (JStr []),
                JStr (string_of (property q ''id'') @ ''.'' @ platform),
                JStr (string_of (property q ''question'') @ '' - '' @ platform),
                js_or (property q ''context'') (JStr []),
                js_or (property config ''type'') (JStr ''url''),
                js_or (property config ''required'') (JBool False),
                JStr ''format: url'',
                JStr (m @ ''.'' @ platform),
                JStr [],
                JStr [],
                JStr []]"
  have children: "map_r (social_link_row q s) (own_properties kvs) =
      Inr (map ?child (own_properties kvs))"
  proof (rule map_r_total)
    show "list_all (\<lambda>x. social_link_row q s x = Inr (?child x)) (own_properties kvs)"
      using configs social_link_row_eq [OF s q _ ident prompt m]
      by (auto simp: list_all_iff)
  qed
  from type have complex: "isComplexType (property q ''type'')"
    by (auto simp: isComplexType_iff)
  have rows: "question_rows s q = Inr (parent # map ?child (own_properties kvs))"
    using q complex type parent fields children
    by (auto simp: question_rows_def processComplexType_def expand_object_fields_def
        expand_social_links_def patch_text_array_def patch_file_upload_def js_get_eq)
  have absent: "nullish (property q ''maps_to'') \<longrightarrow> m = []"
    using m formatMapsTo_nullish [of "property q ''maps_to''"] by auto
  from m rows absent contact_flattened show ?thesis by blast
qed

lemma links_parent:
  "processStandardQuestion links_question basics_section =
     Inr [JStr ''s1'', JStr ''Basics'', JStr ''q2'', JStr ''Links'', JStr [],
          JStr ''social_links_object'', JBool True, JStr [], JStr [], JStr [], JStr [], JStr []]"
  by code_simp

theorem social_links_rows_witness:
  "question_rows basics_section links_question =
     Inr [[JStr ''s1'', JStr ''Basics'', JStr ''q2'', JStr ''Links'', JStr [],
           JStr ''social_links_object'', JBool True, JStr [], JStr [], JStr [], JStr [], JStr []],
          [JStr ''s1'', JStr ''Basics'', JStr ''q2.twitter'', JStr ''Links - twitter'', JStr [],
           JStr ''url'', JBool False, JStr ''format: url'', JStr ''.twitter'', JStr [], JStr [],
           JStr []]]"
proof -
  let ?kvs = "[(''twitter'', JObj [(''type'', JStr ''url'')])]"
  have type: "property links_question ''type'' = JStr ''social_links_object''"
    by (simp add: links_question_def property_def)
  have fields: "property links_question ''fields'' = JObj ?kvs"
    by (simp add: links_question_def property_def)
  have texts: "convertible (property links_question ''id'')"
    "convertible (property links_question ''question'')"
    by (simp_all add: links_question_def property_def)
  have own: "own_properties ?kvs = ?kvs"
    by code_simp
  then have configs: "list_all (\<lambda>(platform, config). \<not> nullish config) (own_properties ?kvs)"
    by simp
  have absent: "nullish (property links_question ''maps_to'')"
    by (simp add: links_question_def property_def)
  from social_links_rows [OF type links_parent fields texts configs] absent
  show ?thesis
    by (auto simp: own property_def js_or_def links_question_def basics_section_def)
qed

section \<open>The flattening engine\<close>

lemma question_ok_parent:
  assumes s: "\<not> nullish s" and ok: "question_ok q"
  shows "\<exists>parent. processStandardQuestion q s = Inr parent"
proof -
  from ok have q: "\<not> nullish q" and plain: "plain q"
    and opts: "options_ok (property q ''options'')"
    by (simp_all add: question_ok_def)
  from plain obtain v where v: "formatValidation (property q ''validation'') = Inr v"
    using formatValidation_plain [OF plain_property] by blast
  from plain obtain m where m: "formatMapsTo (property q ''maps_to'') = Inr m"
    using formatMapsTo_convertible plain_convertible [OF plain_property] by blast
  from plain obtain e where e: "formatExamples (property q ''examples'') = Inr e"
    using formatExamples_convertible plain_convertible [OF plain_property] by blast
  from plain opts obtain opt where opt: "formatOptions (property q ''options'') = Inr opt"
    using formatOptions_plain [OF plain_property] by blast
  from processStandardQuestion_total [OF s q v m e opt] show ?thesis .
qed

lemma children_complete:
  assumes s: "\<not> nullish s" and ok: "question_ok q"
    and fields: "truthy (property q ''fields'')"
    and type: "property q ''type'' \<in> set (map JStr [''service_object'', ''testimonial_object'',
                                             ''social_links_object''])"
  shows "\<exists>entries. Object_entries (property q ''fields'') = Inr entries \<and>
      completes (map_r (object_field_row q s) entries) \<and>
      completes (map_r (social_link_row q s) entries)"
proof -
  from ok have q: "\<not> nullish q" and plain: "plain q" by (simp_all add: question_ok_def)
  from fields obtain entries where entries: "Object_entries (property q ''fields'') = Inr entries"
    using Object_entries_defined [OF truthy_not_nullish] by blast
  with ok fields type have nonnull: "list_all (\<lambda>(name, config). \<not> nullish config) entries"
    by (auto simp: question_ok_def entries_of_def)
  from plain_entries [OF plain_property [OF plain] entries]
  have plains: "list_all (\<lambda>(name, config). plain config) entries" .
  from plain obtain m where m: "formatMapsTo (property q ''maps_to'') = Inr m"
    using formatMapsTo_convertible plain_convertible [OF plain_property] by blast
  have ident: "convertible (property q ''id'')" and prompt: "convertible (property q ''question'')"
    using plain by (simp_all add: plain_convertible plain_property)
  have "completes (object_field_row q s (name, config))"
    if "(name, config) \<in> set entries" for name config
  proof -
    from that nonnull plains have c: "\<not> nullish config" "plain config"
      by (auto simp: list_all_iff)
    then have "completes (formatValidation
        (js_or (property config ''validation'') (property config ''max_length'')))"
      using formatValidation_plain [OF plain_js_or [OF plain_property plain_property]]
      by (simp add: completes_iff)
    from object_field_row_eq [OF s q c(1) ident prompt m this] show ?thesis
      by (simp add: completes_iff)
  qed
  moreover have "completes (social_link_row q s (name, config))"
    if "(name, config) \<in> set entries" for name config
  proof -
    from that nonnull have "\<not> nullish config" by (auto simp: list_all_iff)
    from social_link_row_eq [OF s q this ident prompt m] show ?thesis
      by (simp add: completes_iff)
  qed
  ultimately show ?thesis
    using entries by (auto intro!: map_r_completes simp: list_all_iff)
qed

lemma question_rows_completes:
  assumes s: "\<not> nullish s" and ok: "question_ok q"
  shows "completes (question_rows s q)"
proof -
  from ok have q: "\<not> nullish q" and plain: "plain q" by (simp_all add: question_ok_def)
  from question_ok_parent [OF s ok] obtain parent where
    parent: "processStandardQuestion q s = Inr parent" by blast
  from processStandardQuestion_Inr [OF parent]
  have len: "length parent = 12" and conv: "convertible (cell parent 7)"
    by (auto simp: cell_def)
  have items: "convertible (js_or (property q ''max_items'') (JNum 10))"
    using plain by (simp add: js_or_def plain_convertible plain_property)
  have size: "convertible (property q ''max_size'')"
    using plain by (simp add: plain_convertible plain_property)
  have types: "convertible (property q ''file_types'')"
    using plain by (simp add: plain_convertible plain_property)
  have upload: "completes (patch_file_upload q [parent])"
  proof (cases "property q ''type'' = JStr ''file_upload'' \<and> truthy (property q ''file_types'')")
    case True
    with ok have "isArray (property q ''file_types'')" by (simp add: question_ok_def)
    then obtain xs where xs: "property q ''file_types'' = JArr xs"
      by (cases "property q ''file_types''") simp_all
    with types True q size show ?thesis
      by (simp add: patch_file_upload_def js_get_eq join_def ToString_def completes_def)
  next
    case False
    with q size show ?thesis
      by (auto simp: patch_file_upload_def js_get_eq ToString_def completes_def)
  qed
  have array: "completes (bind_r (patch_text_array q [parent]) (patch_file_upload q))"
  proof (cases "property q ''type'' = JStr ''text_array''")
    case True
    with q items conv show ?thesis
      by (simp add: patch_text_array_def patch_file_upload_def js_get_eq ToString_def
          completes_def)
  next
    case False
    with q upload show ?thesis by (simp add: patch_text_array_def js_get_eq)
  qed
  show ?thesis
  proof (cases "property q ''type'' \<in> set (map JStr [''service_object'', ''testimonial_object'',
                                             ''social_links_object'']) \<and> truthy (property q ''fields'')")
    case True
    from children_complete [OF s ok] True obtain entries fields_rows links_rows where
      entries: "Object_entries (property q ''fields'') = Inr entries"
      and fields_rows: "map_r (object_field_row q s) entries = Inr fields_rows"
      and links_rows: "map_r (social_link_row q s) entries = Inr links_rows"
      by (auto simp: completes_iff)
    with True q parent show ?thesis
      by (auto simp: question_rows_def isComplexType_iff processComplexType_def
          expand_object_fields_def expand_social_links_def patch_text_array_def
          patch_file_upload_def js_get_eq completes_def)
  next
    case False
    with q parent array show ?thesis
      by (auto simp: question_rows_def isComplexType_iff processComplexType_def
          expand_object_fields_def expand_social_links_def js_get_eq completes_def)
  qed
qed

lemma flatten_section_completes:
  assumes "section_ok s"
  shows "completes (flatten_section s acc)"
proof -
  from assms have arr: "isArray (property s ''questions'')"
    and qs: "list_all question_ok (elements (property s ''questions''))"
    by (simp_all add: section_ok_def)
  from arr have s: "\<not> nullish s" by (rule property_array_not_nullish)
  have "completes (forEach_r (flatten_question s) (elements (property s ''questions'')) acc)"
  proof (rule forEach_r_completes)
    fix q acc'
    assume "q \<in> set (elements (property s ''questions''))"
    with qs have "question_ok q" by (simp add: list_all_iff)
    from question_rows_completes [OF s this] show "completes (flatten_question s q acc')"
      by (auto simp: flatten_question_def completes_iff)
  qed
  with s isArray_elements [OF arr] show ?thesis
    by (simp add: flatten_section_def js_get_eq) (metis array_receiver.simps(1) bind_r_Inr)
qed




section \<open>The orchestrator\<close>

lemma rows_unbound:
  "read_identifier
     [(''jsonContent'', a), (''forceNewVersion'', b), (''intakeData'', c), (''sheetName'', d),
      (''parsedData'', e), (''duplicates'', f), (''sheet'', g)] ''rows'' =
   Inl (ReferenceError ''rows'')"
  by (simp add: read_identifier_def global_names_def)

lemma processIntakeJSON_never_succeeds:
  "fst (processIntakeJSON parse now ss jsonContent forceNewVersion) \<noteq> Success name n message"
  by (simp add: processIntakeJSON_def rows_unbound Let_def split: sum.splits prod.splits)

lemma contact_prepared:
  "prepare parse_contact [] contact_json False =
     Inr (contact_document, ''Intake_Contact'',
          \<lparr>rows =
             [[JStr ''s1'', JStr ''Basics'', JStr ''q1'', JStr ''Name?'', JStr [], JStr ''text'',
               JBool True, JStr [], JStr [], JStr [], JStr [], JStr []],
              [JStr ''s1'', JStr ''Basics'', JStr ''q2'', JStr ''Links'', JStr [],
               JStr ''social_links_object'', JBool True, JStr [], JStr [], JStr [], JStr [],
               JStr []],
              [JStr ''s1'', JStr ''Basics'', JStr ''q2.twitter'', JStr ''Links - twitter'', JStr [],
               JStr ''url'', JBool False, JStr ''format: url'', JStr ''.twitter'', JStr [],
               JStr [], JStr []]],
           sectionCount = 1\<rparr>, [])"
  by code_simp

text \<open>
  C1 does not hold of the code: on the document of the end-to-end scenario, which
  passes the structural check and has no duplicate identifiers,
  \<^verbatim>\<open>processIntakeJSON\<close> creates the sheet \<^verbatim>\<open>Intake_Contact\<close> and then reports a
  failure. Its \<^verbatim>\<open>return\<close> statement reads \<^verbatim>\<open>rows.length\<close>, and \<^verbatim>\<open>rows\<close> is bound
  neither in the function nor globally (the rows are \<^verbatim>\<open>parsedData.rows\<close>); the
  \<^verbatim>\<open>ReferenceError\<close> is caught and becomes the result. No input yields a
  success result (\<open>processIntakeJSON_never_succeeds\<close>).
\<close>

theorem processIntakeJSON_reports_failure:
  "check_structure contact_document = Inr () \<and>
   checkDuplicateIds (rows (projr (flattenIntakeJSON contact_document))) = [] \<and>
   fst (processIntakeJSON parse_contact ''2026-01-01'' [] contact_json False) =
     Failure (ReferenceError ''rows'') \<and>
   map sheet_name (snd (processIntakeJSON parse_contact ''2026-01-01'' [] contact_json False)) =
     [''Intake_Contact'']"
  by code_simp

end
